theory Spec2Isabelle
  imports Main
begin

section \<open>ti.speech: the recognition session wrapper of example/app/lib/ti.speech.js\<close>

text \<open>
  The module keeps four module-level variables (\<open>audioEngine\<close>, \<open>request\<close>,
  \<open>recognitionTask\<close>, \<open>speechRecognizer\<close>) and talks to native objects
  (recognizer, requests, tasks, the audio engine and its input node).  The embedding is
  a state-passing one: a \<open>world\<close> record holds the four variables, the native objects
  the module has created (tasks and requests live in heaps indexed by handles, so that a
  stale handler and the tracked task can be told apart), and a trace of every call the
  module makes on a collaborator (logging, native methods, the progress callback).

  What the native side decides (whether a request or a recognizer could be built, whether
  the engine has an input node, whether it starts, which task state the platform reports,
  when and with what a result handler fires) is an input of the model: a \<open>native\<close>
  record given to each call, and \<open>Fire\<close> / \<open>NativeTaskState\<close> actions.

  Three things are taken from the platform rather than from the file: \<open>cancel()\<close> puts
  a task that has not completed into the canceling state; the input node of an engine is
  there or not from the engine's construction on; and a call of a method that a native
  object has, or of the progress function, is recorded in the trace and returns, without
  calling back into the module.  Reading a property of \<open>undefined\<close> or \<open>null\<close>, or
  calling a method an object does not have, throws a \<open>TypeError\<close>, as in any JavaScript
  program.  The arguments \<open>type\<close>, \<open>url\<close> and \<open>id\<close> range over primitive values.
  The two authorization functions keep no state and are left out.
\<close>

subsection \<open>JavaScript values\<close>

datatype jsval = Undefined | Null | JBool bool | JNum int | JStr string

text \<open>Truthiness, as \<open>!v\<close>, \<open>v && e\<close> and \<open>v || e\<close> test it.\<close>

fun truthy :: "jsval \<Rightarrow> bool" where
  "truthy Undefined = False"
| "truthy Null = False"
| "truthy (JBool b) = b"
| "truthy (JNum n) = (n \<noteq> 0)"
| "truthy (JStr s) = (s \<noteq> [])"

text \<open>
  \<open>v == c\<close> for a string constant \<open>c\<close> that is not numeric (\<open>'url'\<close>,
  \<open>'microphone'\<close>): a number or a boolean is compared with \<open>ToNumber c = NaN\<close>, null
  and undefined equal only each other, so among primitive values only the string itself
  is equal.
\<close>

fun loose_eq_const :: "jsval \<Rightarrow> string \<Rightarrow> bool" where
  "loose_eq_const (JStr s) c = (s = c)"
| "loose_eq_const _ c = False"

text \<open>A variable that is visibly \<open>undefined\<close>, \<open>null\<close> or an object.\<close>

datatype 'a jsref = Undef | Nul | Obj 'a

fun is_obj :: "'a jsref \<Rightarrow> bool" where
  "is_obj (Obj _) = True"
| "is_obj _ = False"

text \<open>A value handed in as \<open>args.progress\<close>: a function (named by a number) or not.\<close>

datatype jsfun = NotCallable | Callable nat

datatype js_error = TypeError

text \<open>How a call ends: it returns a value or throws.\<close>

datatype 'a completion = Returned 'a | Threw js_error

subsection \<open>Native objects\<close>

text \<open>\<open>SFSpeechRecognitionTaskState\<close>, in the platform's order.\<close>

datatype task_state = Starting | Running | Finishing | Canceling | Completed

datatype source_type = Url | Microphone

definition SOURCE_TYPE_URL :: string where
  "SOURCE_TYPE_URL = ''url''"

definition SOURCE_TYPE_MICROPHONE :: string where
  "SOURCE_TYPE_MICROPHONE = ''microphone''"

type_synonym nserror = nat

record recog_result =
  formattedString :: string
  isFinal :: bool

record progress_event =
  ev_id :: jsval
  ev_error :: "nserror option"
  ev_value :: "string option"
  ev_state :: "task_state option"
  ev_finished :: "bool option"

text \<open>
  Every call on a collaborator, in program order.  \<open>Progress h f e\<close>: the result handler
  of task \<open>h\<close> called the progress function \<open>f\<close> with the event \<open>e\<close>.
  \<open>ConsoleErrorConcat m v\<close>: \<open>console.error(m + v)\<close>, with the string and the value
  that are concatenated.
\<close>

datatype effect =
    TiApiError string
  | ConsoleError string
  | ConsoleErrorConcat string jsval
  | ConsoleInfo string
  | PathForResource string string
  | TaskCancel nat
  | Progress nat nat progress_event
  | RemoveTapOnBus nat
  | InstallTapOnBus nat
  | EnginePrepare
  | EngineStart bool
  | EngineStop
  | EndAudio nat

text \<open>
  The variables a result handler closes over besides the module's own: the mode of the
  branch that built it, \<open>instance\<close> (\<open>args.id\<close>) and the call's \<open>progressCallback\<close>
  (\<open>None\<close> is \<open>null\<close>).
\<close>

record closure =
  mode :: source_type
  instance_id :: jsval
  progressCallback :: "jsfun option"

record task =
  state :: task_state
  handler :: closure
  task_request :: nat

datatype request_kind = UrlRequest string string | AudioBufferRequest

record request_obj =
  kind :: request_kind
  shouldReportPartialResults :: bool

record recognizer =
  locale_id :: "string option"

text \<open>
  The input node: \<open>tapInstalled\<close> is the flag the module writes on it, \<open>tap\<close> is
  whether a tap is natively installed on bus 0.
\<close>

record input_node =
  tapInstalled :: bool
  tap :: bool

record engine =
  inputNode :: "input_node option"
  running :: bool

text \<open>
  The module's variables (\<open>None\<close> is \<open>undefined\<close> or \<open>null\<close> where only the
  truthiness is ever read), the heaps and the trace.
\<close>

record world =
  audioEngine :: "engine option"
  request :: "nat option"
  recognitionTask :: "nat option"
  speechRecognizer :: "recognizer jsref"
  tasks :: "task list"
  requests :: "request_obj list"
  trace :: "effect list"

definition initial :: world where
  "initial = \<lparr>audioEngine = None, request = None, recognitionTask = None,
     speechRecognizer = Undef, tasks = [], requests = [], trace = []\<rparr>"

text \<open>What the platform answers during one call.\<close>

record native =
  recognizer_created :: bool
  request_created :: bool
  input_node_present :: bool
  engine_started :: bool

record args =
  arg_progress :: "jsfun option"
  arg_type :: jsval
  arg_url :: jsval
  arg_id :: jsval

subsection \<open>Helpers for the native calls\<close>

definition log :: "effect \<Rightarrow> world \<Rightarrow> world" where
  "log e w = w\<lparr>trace := trace w @ [e]\<rparr>"

text \<open>\<open>task.cancel()\<close>: a task that has not completed goes to the canceling state.\<close>

definition cancel :: "nat \<Rightarrow> world \<Rightarrow> world" where
  "cancel t w =
     log (TaskCancel t)
       (if t < length (tasks w) \<and> state (tasks w ! t) \<noteq> Completed
        then w\<lparr>tasks := (tasks w)[t := (tasks w ! t)\<lparr>state := Canceling\<rparr>]\<rparr>
        else w)"

text \<open>\<open>inputNode.removeTapOnBus(0); inputNode.tapInstalled = false\<close> on the engine \<open>e\<close>.\<close>

definition remove_tap :: "engine \<Rightarrow> input_node \<Rightarrow> world \<Rightarrow> world" where
  "remove_tap e n w =
     log (RemoveTapOnBus 0)
       (w\<lparr>audioEngine := Some (e\<lparr>inputNode := Some (n\<lparr>tapInstalled := False, tap := False\<rparr>)\<rparr>)\<rparr>)"

text \<open>\<open>audioEngine.isRunning() && audioEngine.stop()\<close>\<close>

definition stop_if_running :: "world \<Rightarrow> world" where
  "stop_if_running w =
     (case audioEngine w of
        None \<Rightarrow> w
      | Some e \<Rightarrow> if running e then log EngineStop (w\<lparr>audioEngine := Some (e\<lparr>running := False\<rparr>)\<rparr>) else w)"

text \<open>
  Whether \<open>request && request.endAudio()\<close> can be evaluated: no request is tracked, or
  the tracked one is an \<open>SFSpeechAudioBufferRecognitionRequest\<close>, the class that has the
  method.
\<close>

definition ends_audio :: "world \<Rightarrow> bool" where
  "ends_audio w =
     (case request w of
        None \<Rightarrow> True
      | Some r \<Rightarrow> r < length (requests w) \<and> kind (requests w ! r) = AudioBufferRequest)"

text \<open>
  \<open>request && request.endAudio()\<close>.  The variable may hold the request of a url session
  by now; an \<open>SFSpeechURLRecognitionRequest\<close> has no \<open>endAudio\<close>, and calling what is
  not there throws.
\<close>

definition end_audio :: "world \<Rightarrow> unit completion \<times> world" where
  "end_audio w =
     (case request w of
        None \<Rightarrow> (Returned (), w)
      | Some r \<Rightarrow> if ends_audio w then (Returned (), log (EndAudio r) w) else (Threw TypeError, w))"

text \<open>
  \<open>if (audioEngine.inputNode && audioEngine.inputNode.tapInstalled) { removeTapOnBus(0);
  tapInstalled = false }\<close>
\<close>

definition remove_tap_if_installed :: "world \<Rightarrow> world" where
  "remove_tap_if_installed w =
     (case audioEngine w of
        None \<Rightarrow> w
      | Some e \<Rightarrow>
          (case inputNode e of
             None \<Rightarrow> w
           | Some n \<Rightarrow> if tapInstalled n then remove_tap e n w else w))"

text \<open>\<open>_.isFunction(progressCallback) && progressCallback(ev)\<close> inside the handler of \<open>h\<close>.\<close>

definition emit :: "nat \<Rightarrow> jsfun option \<Rightarrow> progress_event \<Rightarrow> world \<Rightarrow> world" where
  "emit h cb ev w = (case cb of Some (Callable f) \<Rightarrow> log (Progress h f ev) w | _ \<Rightarrow> w)"

subsection \<open>initialize and isAvailable\<close>

text \<open>
  \<open>initialize(locale)\<close>: a truthy \<open>locale\<close> selects \<open>alloc().initWithLocale(...)\<close>,
  a method call that may give no object; otherwise \<open>new SFSpeechRecognizer()\<close>, and a
  \<open>new\<close> expression always gives one.
\<close>

definition initialize :: "string option \<Rightarrow> native \<Rightarrow> world \<Rightarrow> world" where
  "initialize loc env w =
     (let w1 = (if is_obj (speechRecognizer w) then w\<lparr>speechRecognizer := Nul\<rparr> else w);
          l = (case loc of Some s \<Rightarrow> if s \<noteq> [] then Some s else None | None \<Rightarrow> None)
      in (case l of
            Some s \<Rightarrow>
              w1\<lparr>speechRecognizer :=
                   (if recognizer_created env then Obj \<lparr>locale_id = Some s\<rparr> else Nul)\<rparr>
          | None \<Rightarrow> w1\<lparr>speechRecognizer := Obj \<lparr>locale_id = None\<rparr>\<rparr>))"

text \<open>
  \<open>return speechRecognizer && speechRecognizer.isAvailable();\<close> with \<open>avail\<close> what the
  native recognizer would answer.
\<close>

definition isAvailable :: "world \<Rightarrow> bool \<Rightarrow> jsval" where
  "isAvailable w avail =
     (case speechRecognizer w of
        Undef \<Rightarrow> Undefined
      | Nul \<Rightarrow> Null
      | Obj r \<Rightarrow> JBool avail)"

subsection \<open>startRecognition\<close>

text \<open>\<open>s.split('.')\<close>: never empty.\<close>

fun split_dot :: "string \<Rightarrow> string list" where
  "split_dot [] = [[]]"
| "split_dot (c # cs) =
     (if c = CHR ''.'' then [] # split_dot cs
      else (case split_dot cs of [] \<Rightarrow> [[c]] | p # ps \<Rightarrow> (c # p) # ps))"

text \<open>\<open>parts.join('.')\<close>\<close>

fun join_dot :: "string list \<Rightarrow> string" where
  "join_dot [] = []"
| "join_dot [p] = p"
| "join_dot (p # ps) = p @ ''.'' @ join_dot ps"

text \<open>Lines 164 to 168: the default of \<open>type\<close>.\<close>

definition infer_type :: "args \<Rightarrow> jsval" where
  "infer_type a =
     (if \<not> truthy (arg_type a) \<and> truthy (arg_url a) then JStr SOURCE_TYPE_URL
      else if \<not> truthy (arg_type a) then JStr SOURCE_TYPE_MICROPHONE
      else arg_type a)"

text \<open>
  Lines 174 to 183: a tracked task is cancelled and forgotten, a tracked request is
  forgotten.
\<close>

definition teardown :: "world \<Rightarrow> world" where
  "teardown w =
     (let w1 = (case recognitionTask w of
                  None \<Rightarrow> w
                | Some t \<Rightarrow> (cancel t w)\<lparr>recognitionTask := None\<rparr>)
      in w1\<lparr>request := None\<rparr>)"

text \<open>
  \<open>recognitionTask = speechRecognizer.recognitionTaskWithRequestResultHandler(request,
  handler)\<close>: reading the method of an absent recognizer throws; otherwise a new task,
  in its first state, is created for the request and tracked.
\<close>

definition create_task :: "closure \<Rightarrow> nat \<Rightarrow> world \<Rightarrow> unit completion \<times> world" where
  "create_task c r w =
     (if is_obj (speechRecognizer w)
      then (Returned (),
            w\<lparr>tasks := tasks w @ [\<lparr>state = Starting, handler = c, task_request = r\<rparr>],
              recognitionTask := Some (length (tasks w))\<rparr>)
      else (Threw TypeError, w))"

text \<open>Lines 186 to 244, the branch \<open>type == SOURCE_TYPE_URL\<close>.\<close>

definition start_url :: "args \<Rightarrow> native \<Rightarrow> closure \<Rightarrow> world \<Rightarrow> bool completion \<times> world" where
  "start_url a env c w =
     (case arg_url a of
        JStr s \<Rightarrow>
          (let parts = split_dot s;
               ext = last parts;
               base = join_dot (butlast parts);
               w1 = log (PathForResource base ext) w
           in if \<not> request_created env
              then (Returned False,
                    log (ConsoleError ''Unable to created a SFSpeechURLRecognitionRequest object'')
                      (w1\<lparr>request := None\<rparr>))
              else
                (let r = length (requests w1);
                     w2 = w1\<lparr>requests := requests w1 @
                                [\<lparr>kind = UrlRequest base ext, shouldReportPartialResults = True\<rparr>],
                             request := Some r\<rparr>;
                     w3 = (if \<not> is_obj (speechRecognizer w2) then initialize None env w2 else w2)
                 in (case create_task c r w3 of
                       (Returned u, w4) \<Rightarrow> (Returned True, w4)
                     | (Threw x, w4) \<Rightarrow> (Threw x, w4))))
      | _ \<Rightarrow> (Threw TypeError, w))"

text \<open>\<open>new AVAudioEngine()\<close>\<close>

definition new_engine :: "native \<Rightarrow> engine" where
  "new_engine env =
     \<lparr>inputNode = (if input_node_present env then Some \<lparr>tapInstalled = False, tap = False\<rparr> else None),
      running = False\<rparr>"

text \<open>
  Lines 288 to 304: the tap is removed whenever the input node exists, a new tap is
  installed, and the engine is prepared and started.
\<close>

definition install_and_start :: "native \<Rightarrow> world \<Rightarrow> bool completion \<times> world" where
  "install_and_start env w =
     (case audioEngine w of
        None \<Rightarrow> (Threw TypeError, w)
      | Some e \<Rightarrow>
          (let w1 = (case inputNode e of None \<Rightarrow> w | Some n \<Rightarrow> remove_tap e n w)
           in (case audioEngine w1 of
                 None \<Rightarrow> (Threw TypeError, w1)
               | Some e1 \<Rightarrow>
                   (case inputNode e1 of
                      None \<Rightarrow> (Threw TypeError, w1)
                    | Some n1 \<Rightarrow>
                        (let e2 = e1\<lparr>inputNode := Some (n1\<lparr>tapInstalled := True, tap := True\<rparr>)\<rparr>;
                             w2 = log (InstallTapOnBus 0) (w1\<lparr>audioEngine := Some e2\<rparr>);
                             w3 = log EnginePrepare w2;
                             ok = engine_started env;
                             w4 = log (EngineStart ok)
                                    (w3\<lparr>audioEngine := Some (e2\<lparr>running := (ok \<or> running e2)\<rparr>)\<rparr>)
                         in if \<not> ok then (Returned False, w4) else (Returned True, w4))))))"

text \<open>Lines 247 to 307, the branch \<open>type == SOURCE_TYPE_MICROPHONE\<close>.\<close>

definition start_microphone :: "native \<Rightarrow> closure \<Rightarrow> world \<Rightarrow> bool completion \<times> world" where
  "start_microphone env c w =
     (let e = (case audioEngine w of None \<Rightarrow> new_engine env | Some e0 \<Rightarrow> e0);
          w1 = w\<lparr>audioEngine := Some e\<rparr>
      in (case inputNode e of
            None \<Rightarrow> (Returned False, log (ConsoleError ''Audio engine has no input node'') w1)
          | Some n \<Rightarrow>
              (let r = length (requests w1);
                   w2 = w1\<lparr>requests := requests w1 @
                              [\<lparr>kind = AudioBufferRequest, shouldReportPartialResults = True\<rparr>],
                           request := Some r\<rparr>
               in (case create_task c r w2 of
                     (Returned u, w3) \<Rightarrow> install_and_start env w3
                   | (Threw x, w3) \<Rightarrow> (Threw x, w3)))))"

text \<open>Lines 170 to 172: a missing \<open>progress\<close> is reported, and the call goes on.\<close>

definition warn_no_progress :: "args \<Rightarrow> world \<Rightarrow> world" where
  "warn_no_progress a w =
     (if arg_progress a = None
      then log (TiApiError
        ''No \"progress\" callback supplied - You will not be notified about transcription updates'') w
      else w)"

definition startRecognition :: "args \<Rightarrow> native \<Rightarrow> world \<Rightarrow> bool completion \<times> world" where
  "startRecognition a env w =
     (let ty = infer_type a;
          w2 = teardown (warn_no_progress a w)
      in if loose_eq_const ty SOURCE_TYPE_URL
         then start_url a env
                \<lparr>mode = Url, instance_id = arg_id a, progressCallback = arg_progress a\<rparr> w2
         else if loose_eq_const ty SOURCE_TYPE_MICROPHONE
         then start_microphone env
                \<lparr>mode = Microphone, instance_id = arg_id a, progressCallback = arg_progress a\<rparr> w2
         else (Returned False, log (ConsoleErrorConcat ''Unhandled type supplied:'' ty) w2))"

subsection \<open>The result handlers\<close>

text \<open>\<open>recognitionTask && recognitionTask.state\<close>\<close>

definition tracked_state :: "world \<Rightarrow> task_state option" where
  "tracked_state w =
     (case recognitionTask w of
        None \<Rightarrow> None
      | Some t \<Rightarrow> if t < length (tasks w) then Some (state (tasks w ! t)) else None)"

text \<open>\<open>error || (result && result.isFinal())\<close>\<close>

definition error_or_final :: "recog_result option \<Rightarrow> nserror option \<Rightarrow> bool" where
  "error_or_final result err = (err \<noteq> None \<or> map_option isFinal result = Some True)"

text \<open>
  Lines 203 to 243: the handler built in url mode, for the task \<open>h\<close> it was given to.
  It reads the module's \<open>recognitionTask\<close>, whichever task that is by now.
\<close>

definition url_handler :: "nat \<Rightarrow> recog_result option \<Rightarrow> nserror option \<Rightarrow> world \<Rightarrow> world" where
  "url_handler h result err w =
     (let c = handler (tasks w ! h) in
      case recognitionTask w of
        None \<Rightarrow> w
      | Some t \<Rightarrow>
          if tracked_state w = Some Canceling
          then
            (let w1 = log (ConsoleInfo ''The speech recognition task has been cancelled.'') w;
                 w2 = emit h (progressCallback c)
                        \<lparr>ev_id = instance_id c, ev_error = err,
                         ev_value = map_option formattedString result,
                         ev_state = tracked_state w, ev_finished = Some True\<rparr> w1
             in w2\<lparr>tasks := (tasks w2)[h := (tasks w2 ! h)\<lparr>handler := c\<lparr>progressCallback := None\<rparr>\<rparr>],
                   request := None, recognitionTask := None\<rparr>)
          else
            (let w1 = emit h (progressCallback c)
                        \<lparr>ev_id = instance_id c, ev_error = err,
                         ev_value = map_option formattedString result,
                         ev_state = tracked_state w,
                         ev_finished = map_option isFinal result\<rparr> w
             in if error_or_final result err
                then w1\<lparr>recognitionTask := None, request := None\<rparr>
                else w1))"

text \<open>Lines 260 to 286: the handler built in microphone mode.\<close>

definition microphone_handler ::
  "nat \<Rightarrow> recog_result option \<Rightarrow> nserror option \<Rightarrow> world \<Rightarrow> unit completion \<times> world" where
  "microphone_handler h result err w =
     (let c = handler (tasks w ! h);
          w1 = emit h (progressCallback c)
                 \<lparr>ev_id = instance_id c, ev_error = err,
                  ev_value = map_option formattedString result,
                  ev_state = tracked_state w,
                  ev_finished = map_option isFinal result\<rparr> w
      in if error_or_final result err
         then (case end_audio (stop_if_running (remove_tap_if_installed w1)) of
                 (Returned u, w2) \<Rightarrow> (Returned (), w2\<lparr>recognitionTask := None\<rparr>)
               | (Threw x, w2) \<Rightarrow> (Threw x, w2))
         else (Returned (), w1))"

subsection \<open>stopRecognition\<close>

definition stopRecognition :: "world \<Rightarrow> unit completion \<times> world" where
  "stopRecognition w =
     (case audioEngine w of
        Some e \<Rightarrow>
          (case end_audio (stop_if_running w) of
             (Returned u, w1) \<Rightarrow> (Returned (), remove_tap_if_installed w1)
           | (Threw x, w1) \<Rightarrow> (Threw x, w1))
      | None \<Rightarrow>
          (case recognitionTask w of
             Some t \<Rightarrow> (Returned (), cancel t w)
           | None \<Rightarrow> (Returned (), w)))"

subsection \<open>Runs of the module\<close>

text \<open>
  What can happen to the module: the application calls it, the platform moves a task to
  another state, or the platform calls the result handler of a task.  A call that throws
  leaves the state it had reached.
\<close>

datatype action =
    Initialize "string option" native
  | StartRecognition args native
  | StopRecognition
  | NativeTaskState nat task_state
  | Fire nat "recog_result option" "nserror option"

fun step :: "action \<Rightarrow> world \<Rightarrow> world" where
  "step (Initialize loc env) w = initialize loc env w"
| "step (StartRecognition a env) w = snd (startRecognition a env w)"
| "step StopRecognition w = snd (stopRecognition w)"
| "step (NativeTaskState h s) w =
     (if h < length (tasks w) then w\<lparr>tasks := (tasks w)[h := (tasks w ! h)\<lparr>state := s\<rparr>]\<rparr> else w)"
| "step (Fire h result err) w =
     (if h < length (tasks w)
      then (case mode (handler (tasks w ! h)) of
              Url \<Rightarrow> url_handler h result err w
            | Microphone \<Rightarrow> snd (microphone_handler h result err w))
      else w)"

fun run :: "action list \<Rightarrow> world \<Rightarrow> world" where
  "run [] w = w"
| "run (x # xs) w = run xs (step x w)"

text \<open>A task the platform is still working on.\<close>

fun active :: "task \<Rightarrow> bool" where
  "active t = (state t = Starting \<or> state t = Running \<or> state t = Finishing)"

subsection \<open>Notions the properties are stated with\<close>

text \<open>The progress events the handler of task \<open>h\<close> has delivered, oldest first.\<close>

fun handler_events :: "nat \<Rightarrow> effect list \<Rightarrow> (nat \<times> progress_event) list" where
  "handler_events h [] = []"
| "handler_events h (Progress h' f ev # xs) =
     (if h' = h then (f, ev) # handler_events h xs else handler_events h xs)"
| "handler_events h (x # xs) = handler_events h xs"

text \<open>The calls on the input node's tap, oldest first.\<close>

fun tap_calls :: "effect list \<Rightarrow> effect list" where
  "tap_calls [] = []"
| "tap_calls (RemoveTapOnBus b # xs) = RemoveTapOnBus b # tap_calls xs"
| "tap_calls (InstallTapOnBus b # xs) = InstallTapOnBus b # tap_calls xs"
| "tap_calls (x # xs) = tap_calls xs"

text \<open>The calls on native objects, oldest first: the trace without logging and progress.\<close>

fun native_calls :: "effect list \<Rightarrow> effect list" where
  "native_calls [] = []"
| "native_calls (TiApiError m # xs) = native_calls xs"
| "native_calls (ConsoleError m # xs) = native_calls xs"
| "native_calls (ConsoleErrorConcat m v # xs) = native_calls xs"
| "native_calls (ConsoleInfo m # xs) = native_calls xs"
| "native_calls (Progress h f ev # xs) = native_calls xs"
| "native_calls (x # xs) = x # native_calls xs"

text \<open>Only the tracked task may be active, and what is tracked exists.\<close>

definition lone :: "world \<Rightarrow> bool" where
  "lone w =
     ((\<forall>i < length (tasks w). active (tasks w ! i) \<longrightarrow> recognitionTask w = Some i) \<and>
      (\<forall>t. recognitionTask w = Some t \<longrightarrow> t < length (tasks w)))"

text \<open>
  Whether \<open>audioEngine.inputNode\<close> is there at line 251: on the engine the module
  holds, or on the one it is about to construct.
\<close>

definition input_node_available :: "native \<Rightarrow> world \<Rightarrow> bool" where
  "input_node_available env w =
     (case audioEngine w of None \<Rightarrow> input_node_present env | Some e \<Rightarrow> inputNode e \<noteq> None)"

text \<open>The flag and the native tap of the input node, when there is one.\<close>

definition tap_status :: "world \<Rightarrow> (bool \<times> bool) option" where
  "tap_status w =
     (case audioEngine w of
        None \<Rightarrow> None
      | Some e \<Rightarrow> (case inputNode e of None \<Rightarrow> None | Some n \<Rightarrow> Some (tapInstalled n, tap n)))"

subsection \<open>Sample inputs\<close>

definition env_ok :: native where
  "env_ok = \<lparr>recognizer_created = True, request_created = True,
     input_node_present = True, engine_started = True\<rparr>"

definition url_args :: args where
  "url_args = \<lparr>arg_progress = Some (Callable 7), arg_type = Undefined,
     arg_url = JStr ''hello.wav'', arg_id = JNum 5\<rparr>"

definition mic_args :: args where
  "mic_args = \<lparr>arg_progress = Some (Callable 7), arg_type = Undefined,
     arg_url = Undefined, arg_id = JNum 6\<rparr>"

definition unknown_args :: args where
  "unknown_args = \<lparr>arg_progress = Some (Callable 7), arg_type = JStr ''stream'',
     arg_url = Undefined, arg_id = JNum 8\<rparr>"

definition partial_result :: recog_result where
  "partial_result = \<lparr>formattedString = ''hel'', isFinal = False\<rparr>"

definition final_result :: recog_result where
  "final_result = \<lparr>formattedString = ''hello'', isFinal = True\<rparr>"

section \<open>Properties\<close>

subsection \<open>What each helper touches\<close>

lemma log_fields [simp]:
  "audioEngine (log x w) = audioEngine w"
  "request (log x w) = request w"
  "recognitionTask (log x w) = recognitionTask w"
  "speechRecognizer (log x w) = speechRecognizer w"
  "tasks (log x w) = tasks w"
  "requests (log x w) = requests w"
  "trace (log x w) = trace w @ [x]"
  by (simp_all add: log_def)

lemma cancel_fields [simp]:
  "audioEngine (cancel t w) = audioEngine w"
  "request (cancel t w) = request w"
  "recognitionTask (cancel t w) = recognitionTask w"
  "speechRecognizer (cancel t w) = speechRecognizer w"
  "requests (cancel t w) = requests w"
  "trace (cancel t w) = trace w @ [TaskCancel t]"
  "length (tasks (cancel t w)) = length (tasks w)"
  by (simp_all add: cancel_def)

lemma cancel_handler [simp]:
  "i < length (tasks w) \<Longrightarrow> handler (tasks (cancel t w) ! i) = handler (tasks w ! i)"
  by (simp add: cancel_def nth_list_update)

lemma cancel_other [simp]:
  "i \<noteq> t \<Longrightarrow> tasks (cancel t w) ! i = tasks w ! i"
  by (simp add: cancel_def)

lemma cancel_not_active [simp]:
  "t < length (tasks w) \<Longrightarrow> \<not> active (tasks (cancel t w) ! t)"
  by (simp add: cancel_def)

lemma warn_no_progress_fields [simp]:
  "audioEngine (warn_no_progress a w) = audioEngine w"
  "request (warn_no_progress a w) = request w"
  "recognitionTask (warn_no_progress a w) = recognitionTask w"
  "speechRecognizer (warn_no_progress a w) = speechRecognizer w"
  "tasks (warn_no_progress a w) = tasks w"
  "requests (warn_no_progress a w) = requests w"
  by (simp_all add: warn_no_progress_def)

lemma teardown_fields [simp]:
  "audioEngine (teardown w) = audioEngine w"
  "request (teardown w) = None"
  "recognitionTask (teardown w) = None"
  "speechRecognizer (teardown w) = speechRecognizer w"
  "requests (teardown w) = requests w"
  "length (tasks (teardown w)) = length (tasks w)"
  by (simp_all add: teardown_def Let_def split: option.splits)

lemma teardown_tasks:
  "tasks (teardown w) = (case recognitionTask w of None \<Rightarrow> tasks w | Some t \<Rightarrow> tasks (cancel t w))"
  by (simp add: teardown_def Let_def split: option.splits)

lemma teardown_trace:
  "trace (teardown w) = trace w @ (case recognitionTask w of None \<Rightarrow> [] | Some t \<Rightarrow> [TaskCancel t])"
  by (simp add: teardown_def Let_def split: option.splits)

lemma teardown_handler [simp]:
  "i < length (tasks w) \<Longrightarrow> handler (tasks (teardown w) ! i) = handler (tasks w ! i)"
  by (simp add: teardown_tasks split: option.splits)

lemma initialize_fields [simp]:
  "audioEngine (initialize l env w) = audioEngine w"
  "request (initialize l env w) = request w"
  "recognitionTask (initialize l env w) = recognitionTask w"
  "tasks (initialize l env w) = tasks w"
  "requests (initialize l env w) = requests w"
  "trace (initialize l env w) = trace w"
  by (simp_all add: initialize_def Let_def split: option.splits)

lemma initialize_recognizer:
  "speechRecognizer (initialize l env w) =
     (case l of
        None \<Rightarrow> Obj \<lparr>locale_id = None\<rparr>
      | Some s \<Rightarrow>
          if s = [] then Obj \<lparr>locale_id = None\<rparr>
          else if recognizer_created env then Obj \<lparr>locale_id = Some s\<rparr> else Nul)"
  by (simp add: initialize_def Let_def split: option.splits)

lemma remove_tap_fields [simp]:
  "request (remove_tap e n w) = request w"
  "recognitionTask (remove_tap e n w) = recognitionTask w"
  "speechRecognizer (remove_tap e n w) = speechRecognizer w"
  "tasks (remove_tap e n w) = tasks w"
  "requests (remove_tap e n w) = requests w"
  "trace (remove_tap e n w) = trace w @ [RemoveTapOnBus 0]"
  "audioEngine (remove_tap e n w) = Some (e\<lparr>inputNode := Some (n\<lparr>tapInstalled := False, tap := False\<rparr>)\<rparr>)"
  by (simp_all add: remove_tap_def)

lemma remove_tap_if_installed_fields [simp]:
  "request (remove_tap_if_installed w) = request w"
  "recognitionTask (remove_tap_if_installed w) = recognitionTask w"
  "speechRecognizer (remove_tap_if_installed w) = speechRecognizer w"
  "tasks (remove_tap_if_installed w) = tasks w"
  "requests (remove_tap_if_installed w) = requests w"
  by (simp_all add: remove_tap_if_installed_def split: option.splits)

lemma stop_if_running_fields [simp]:
  "request (stop_if_running w) = request w"
  "recognitionTask (stop_if_running w) = recognitionTask w"
  "speechRecognizer (stop_if_running w) = speechRecognizer w"
  "tasks (stop_if_running w) = tasks w"
  "requests (stop_if_running w) = requests w"
  by (simp_all add: stop_if_running_def split: option.splits)

lemma ends_audio_simps [simp]:
  "ends_audio (log x w) = ends_audio w"
  "ends_audio (remove_tap e n w) = ends_audio w"
  "ends_audio (remove_tap_if_installed w) = ends_audio w"
  "ends_audio (stop_if_running w) = ends_audio w"
  "ends_audio (emit h cb ev w) = ends_audio w"
  by (simp_all add: ends_audio_def emit_def split: option.splits jsfun.splits)

lemma end_audio_fields [simp]:
  "audioEngine (snd (end_audio w)) = audioEngine w"
  "request (snd (end_audio w)) = request w"
  "recognitionTask (snd (end_audio w)) = recognitionTask w"
  "speechRecognizer (snd (end_audio w)) = speechRecognizer w"
  "tasks (snd (end_audio w)) = tasks w"
  "requests (snd (end_audio w)) = requests w"
  by (simp_all add: end_audio_def split: option.splits)

lemma end_audio_fst:
  "fst (end_audio w) = (if ends_audio w then Returned () else Threw TypeError)"
  by (simp add: end_audio_def ends_audio_def split: option.splits)

lemma end_audio_trace:
  "trace (snd (end_audio w)) =
     trace w @ (case request w of
                  None \<Rightarrow> []
                | Some r \<Rightarrow> if ends_audio w then [EndAudio r] else [])"
  by (simp add: end_audio_def split: option.splits)

lemma case_end_audio:
  "(case end_audio w of (Returned u, w2) \<Rightarrow> F u w2 | (Threw x, w2) \<Rightarrow> G x w2) =
     (if ends_audio w then F () (snd (end_audio w)) else G TypeError (snd (end_audio w)))"
  by (simp add: end_audio_def ends_audio_def split: option.splits)

lemma emit_fields [simp]:
  "audioEngine (emit h cb ev w) = audioEngine w"
  "request (emit h cb ev w) = request w"
  "recognitionTask (emit h cb ev w) = recognitionTask w"
  "speechRecognizer (emit h cb ev w) = speechRecognizer w"
  "tasks (emit h cb ev w) = tasks w"
  "requests (emit h cb ev w) = requests w"
  by (simp_all add: emit_def split: option.splits jsfun.splits)

lemma emit_trace:
  "trace (emit h cb ev w) = trace w @ (case cb of Some (Callable f) \<Rightarrow> [Progress h f ev] | _ \<Rightarrow> [])"
  by (simp add: emit_def split: option.splits jsfun.splits)

lemma cancel_tasks_log [simp]:
  "tasks (cancel t (log x w)) = tasks (cancel t w)"
  by (simp add: cancel_def)

lemma tap_status_simps [simp]:
  "tap_status (log x w) = tap_status w"
  "tap_status (teardown w) = tap_status w"
  "tap_status (warn_no_progress a w) = tap_status w"
  by (simp_all add: tap_status_def)

subsection \<open>Projections of the trace\<close>

lemma handler_events_append [simp]:
  "handler_events h (xs @ ys) = handler_events h xs @ handler_events h ys"
  by (induction h xs rule: handler_events.induct) simp_all

lemma native_calls_append [simp]:
  "native_calls (xs @ ys) = native_calls xs @ native_calls ys"
  by (induction xs rule: native_calls.induct) simp_all

lemma tap_calls_append [simp]:
  "tap_calls (xs @ ys) = tap_calls xs @ tap_calls ys"
  by (induction xs rule: tap_calls.induct) simp_all

subsection \<open>The three branches of startRecognition\<close>

lemma not_url_and_microphone:
  "loose_eq_const ty SOURCE_TYPE_MICROPHONE \<Longrightarrow> \<not> loose_eq_const ty SOURCE_TYPE_URL"
  by (cases ty) (auto simp: SOURCE_TYPE_URL_def SOURCE_TYPE_MICROPHONE_def)

lemma startRecognition_unknown:
  "\<not> loose_eq_const (infer_type a) SOURCE_TYPE_URL \<Longrightarrow>
   \<not> loose_eq_const (infer_type a) SOURCE_TYPE_MICROPHONE \<Longrightarrow>
   startRecognition a env w =
     (Returned False,
      log (ConsoleErrorConcat ''Unhandled type supplied:'' (infer_type a))
        (teardown (warn_no_progress a w)))"
  by (simp add: startRecognition_def Let_def)

lemma startRecognition_url:
  "loose_eq_const (infer_type a) SOURCE_TYPE_URL \<Longrightarrow>
   startRecognition a env w =
     start_url a env \<lparr>mode = Url, instance_id = arg_id a, progressCallback = arg_progress a\<rparr>
       (teardown (warn_no_progress a w))"
  by (simp add: startRecognition_def Let_def)

lemma startRecognition_microphone:
  "loose_eq_const (infer_type a) SOURCE_TYPE_MICROPHONE \<Longrightarrow>
   startRecognition a env w =
     start_microphone env
       \<lparr>mode = Microphone, instance_id = arg_id a, progressCallback = arg_progress a\<rparr>
       (teardown (warn_no_progress a w))"
  by (simp add: startRecognition_def Let_def not_url_and_microphone)

subsection \<open>isAvailable\<close>

text \<open>
  C8 (isAvailable before any initialize returns the boolean false and does not throw).
  On the module as loaded, \<open>speechRecognizer\<close> is \<open>undefined\<close>, and the expression
  \<open>speechRecognizer && speechRecognizer.isAvailable()\<close> evaluates to its left operand:
  the call does not throw, and what it returns is \<open>undefined\<close>, which is falsy but is
  not the boolean \<open>false\<close> the \<open>@returns {boolean}\<close> of the function announces.
\<close>

theorem isAvailable_before_initialize:
  "\<forall>avail. isAvailable initial avail = Undefined \<and> isAvailable initial avail \<noteq> JBool False \<and>
     \<not> truthy (isAvailable initial avail)"
  by (simp add: isAvailable_def initial_def)

subsection \<open>stopRecognition\<close>

text \<open>
  While no request is tracked, or the tracked one is an audio-buffer request,
  stopRecognition returns normally.  When the module holds an audio engine: the engine is
  stopped if it is running, then the tracked request (if any) gets \<open>endAudio\<close>, then the
  tap is removed if the input node exists and carries the \<open>tapInstalled\<close> flag, which is
  cleared; nothing else changes.  When it holds no engine but tracks a task, that task is
  cancelled.  When it holds neither, the world is unchanged.
\<close>

lemma stopRecognition_audio_request:
  "ends_audio w \<Longrightarrow>
   fst (stopRecognition w) = Returned () \<and>
   (case audioEngine w of
      Some e \<Rightarrow>
        trace (snd (stopRecognition w)) =
          trace w @ (if running e then [EngineStop] else [])
                  @ (case request w of Some r \<Rightarrow> [EndAudio r] | None \<Rightarrow> [])
                  @ (case inputNode e of
                       Some n \<Rightarrow> if tapInstalled n then [RemoveTapOnBus 0] else []
                     | None \<Rightarrow> []) \<and>
        audioEngine (snd (stopRecognition w)) =
          Some (e\<lparr>running := False,
                  inputNode :=
                    (case inputNode e of
                       Some n \<Rightarrow>
                         Some (if tapInstalled n then n\<lparr>tapInstalled := False, tap := False\<rparr> else n)
                     | None \<Rightarrow> None)\<rparr>) \<and>
        tasks (snd (stopRecognition w)) = tasks w \<and>
        recognitionTask (snd (stopRecognition w)) = recognitionTask w \<and>
        request (snd (stopRecognition w)) = request w
    | None \<Rightarrow>
        (case recognitionTask w of
           Some t \<Rightarrow> snd (stopRecognition w) = cancel t w \<and>
                     trace (cancel t w) = trace w @ [TaskCancel t]
         | None \<Rightarrow> snd (stopRecognition w) = w))"
  by (auto simp: stopRecognition_def case_end_audio end_audio_def ends_audio_def
      remove_tap_if_installed_def stop_if_running_def remove_tap_def log_def
      split: option.splits)

text \<open>
  C7 (stopRecognition stops the engine, ends the request's audio and removes the tap when
  an audio engine is active, cancels the task when a url task is active, and raises no
  error).  The code tests whether the module holds an engine object (line 321), and it
  holds one from the first microphone call on; the request it ends (line 328) is whatever
  the module tracks.  So with a url session started after a microphone session, whether
  that one is still capturing or has finished, stopRecognition takes the engine branch,
  throws at \<open>request.endAudio()\<close> on the url request, never reaches the removal of the tap
  (lines 329 to 332), and does not cancel the url task, which stays active.
\<close>

theorem stopRecognition_throws_on_url_request:
  "fst (stopRecognition (run [Initialize None env_ok, StartRecognition mic_args env_ok,
      StartRecognition url_args env_ok] initial)) = Threw TypeError \<and>
   native_calls (trace (snd (stopRecognition (run [Initialize None env_ok,
      StartRecognition mic_args env_ok, StartRecognition url_args env_ok] initial)))) =
     [RemoveTapOnBus 0, InstallTapOnBus 0, EnginePrepare, EngineStart True, TaskCancel 0,
      PathForResource ''hello'' ''wav'', EngineStop] \<and>
   tap_status (snd (stopRecognition (run [Initialize None env_ok,
      StartRecognition mic_args env_ok, StartRecognition url_args env_ok] initial))) =
     Some (True, True) \<and>
   map active (tasks (snd (stopRecognition (run [Initialize None env_ok,
      StartRecognition mic_args env_ok, StartRecognition url_args env_ok] initial)))) =
     [False, True] \<and>
   fst (stopRecognition (run [Initialize None env_ok, StartRecognition mic_args env_ok,
      Fire 0 (Some final_result) None, NativeTaskState 0 Completed,
      StartRecognition url_args env_ok] initial)) = Threw TypeError \<and>
   native_calls (trace (snd (stopRecognition (run [Initialize None env_ok,
      StartRecognition mic_args env_ok, Fire 0 (Some final_result) None,
      NativeTaskState 0 Completed, StartRecognition url_args env_ok] initial)))) =
     [RemoveTapOnBus 0, InstallTapOnBus 0, EnginePrepare, EngineStart True,
      RemoveTapOnBus 0, EngineStop, EndAudio 0, PathForResource ''hello'' ''wav''] \<and>
   map active (tasks (snd (stopRecognition (run [Initialize None env_ok,
      StartRecognition mic_args env_ok, Fire 0 (Some final_result) None,
      NativeTaskState 0 Completed, StartRecognition url_args env_ok] initial)))) =
     [False, True]"
  by code_simp

subsection \<open>An unknown type\<close>

text \<open>
  C2 as stated (an unknown \<open>type\<close> leaves the task and request state as it was) fails:
  after a url session has been started, a call with the type \<open>'stream'\<close> cancels the
  tracked task and forgets both the task and the request.
\<close>

theorem unknown_type_changes_task_and_request:
  "recognitionTask (run [StartRecognition url_args env_ok] initial) = Some 0 \<and>
   request (run [StartRecognition url_args env_ok] initial) = Some 0 \<and>
   state (tasks (run [StartRecognition url_args env_ok] initial) ! 0) = Starting \<and>
   \<not> loose_eq_const (infer_type unknown_args) SOURCE_TYPE_URL \<and>
   \<not> loose_eq_const (infer_type unknown_args) SOURCE_TYPE_MICROPHONE \<and>
   recognitionTask (snd (startRecognition unknown_args env_ok
      (run [StartRecognition url_args env_ok] initial))) = None \<and>
   request (snd (startRecognition unknown_args env_ok
      (run [StartRecognition url_args env_ok] initial))) = None \<and>
   state (tasks (snd (startRecognition unknown_args env_ok
      (run [StartRecognition url_args env_ok] initial))) ! 0) = Canceling"
  by code_simp

text \<open>
  C2, amended.  A call whose type, after the default, is neither \<open>'url'\<close> nor
  \<open>'microphone'\<close> returns false and its last act is the error log naming the type.  It
  leaves the audio engine, the recognizer and the requests alone, and creates nothing.
  The teardown of lines 174 to 183 has run by then: no task and no request is tracked
  afterwards, and the task that was tracked has been cancelled (the only native call made).
\<close>

theorem unknown_type_rejected:
  "\<not> loose_eq_const (infer_type a) SOURCE_TYPE_URL \<Longrightarrow>
   \<not> loose_eq_const (infer_type a) SOURCE_TYPE_MICROPHONE \<Longrightarrow>
   fst (startRecognition a env w) = Returned False \<and>
   last (trace (snd (startRecognition a env w))) =
     ConsoleErrorConcat ''Unhandled type supplied:'' (infer_type a) \<and>
   audioEngine (snd (startRecognition a env w)) = audioEngine w \<and>
   speechRecognizer (snd (startRecognition a env w)) = speechRecognizer w \<and>
   requests (snd (startRecognition a env w)) = requests w \<and>
   recognitionTask (snd (startRecognition a env w)) = None \<and>
   request (snd (startRecognition a env w)) = None \<and>
   tasks (snd (startRecognition a env w)) =
     (case recognitionTask w of None \<Rightarrow> tasks w | Some t \<Rightarrow> tasks (cancel t w)) \<and>
   native_calls (trace (snd (startRecognition a env w))) =
     native_calls (trace w) @ (case recognitionTask w of None \<Rightarrow> [] | Some t \<Rightarrow> [TaskCancel t])"
  by (simp add: startRecognition_unknown teardown_tasks teardown_trace warn_no_progress_def
      split: option.splits)

theorem unknown_type_rejected_witness:
  "\<not> loose_eq_const (infer_type unknown_args) SOURCE_TYPE_URL \<and>
   \<not> loose_eq_const (infer_type unknown_args) SOURCE_TYPE_MICROPHONE \<and>
   fst (startRecognition unknown_args env_ok initial) = Returned False \<and>
   recognitionTask (snd (startRecognition unknown_args env_ok initial)) = None \<and>
   tasks (snd (startRecognition unknown_args env_ok initial)) = []"
proof -
  have u: "\<not> loose_eq_const (infer_type unknown_args) SOURCE_TYPE_URL"
    by code_simp
  have m: "\<not> loose_eq_const (infer_type unknown_args) SOURCE_TYPE_MICROPHONE"
    by code_simp
  show ?thesis
    using unknown_type_rejected [OF u m, of env_ok initial] u m by (simp add: initial_def)
qed

subsection \<open>Removing the tap\<close>

text \<open>
  C3 (every removal of the tap is guarded by \<open>tapInstalled\<close>, so the tap is never removed
  twice in a row).  The removal inside startRecognition (lines 288 to 291) is guarded by
  the input node only.  Starting a microphone session, stopping it and starting another
  one calls \<open>removeTapOnBus\<close> three times: once before any tap exists, and twice in a row
  between the two installations.
\<close>

theorem startRecognition_removes_tap_unguarded:
  "tap_calls (trace (run [Initialize None env_ok, StartRecognition mic_args env_ok,
      StopRecognition, StartRecognition mic_args env_ok] initial))
   = [RemoveTapOnBus 0, InstallTapOnBus 0, RemoveTapOnBus 0, RemoveTapOnBus 0, InstallTapOnBus 0]"
  by code_simp

subsection \<open>The branches of startRecognition, by outcome\<close>

lemma create_task_absent:
  "\<not> is_obj (speechRecognizer w) \<Longrightarrow> create_task c r w = (Threw TypeError, w)"
  by (simp add: create_task_def)

lemma create_task_present:
  "is_obj (speechRecognizer w) \<Longrightarrow>
   create_task c r w =
     (Returned (),
      w\<lparr>tasks := tasks w @ [\<lparr>state = Starting, handler = c, task_request = r\<rparr>],
        recognitionTask := Some (length (tasks w))\<rparr>)"
  by (simp add: create_task_def)

lemma start_microphone_no_node:
  "\<not> input_node_available env w \<Longrightarrow>
   start_microphone env c w =
     (Returned False,
      log (ConsoleError ''Audio engine has no input node'')
        (w\<lparr>audioEngine := Some (case audioEngine w of None \<Rightarrow> new_engine env | Some e \<Rightarrow> e)\<rparr>))"
  by (auto simp: start_microphone_def input_node_available_def new_engine_def Let_def
      split: option.splits)

lemma start_microphone_no_recognizer:
  "input_node_available env w \<Longrightarrow> \<not> is_obj (speechRecognizer w) \<Longrightarrow>
   fst (start_microphone env c w) = Threw TypeError \<and>
   speechRecognizer (snd (start_microphone env c w)) = speechRecognizer w \<and>
   tasks (snd (start_microphone env c w)) = tasks w \<and>
   recognitionTask (snd (start_microphone env c w)) = recognitionTask w \<and>
   request (snd (start_microphone env c w)) = Some (length (requests w)) \<and>
   trace (snd (start_microphone env c w)) = trace w"
  by (auto simp: start_microphone_def input_node_available_def new_engine_def Let_def
      create_task_def split: option.splits)

lemma install_and_start_result:
  "audioEngine w = Some e \<Longrightarrow> inputNode e = Some n \<Longrightarrow>
   install_and_start env w =
     (Returned (engine_started env),
      w\<lparr>audioEngine := Some \<lparr>inputNode = Some \<lparr>tapInstalled = True, tap = True\<rparr>,
                               running = (engine_started env \<or> running e)\<rparr>,
        trace := trace w @ [RemoveTapOnBus 0, InstallTapOnBus 0, EnginePrepare,
                            EngineStart (engine_started env)]\<rparr>)"
  by (simp add: install_and_start_def remove_tap_def log_def Let_def)

lemma start_microphone_started:
  "input_node_available env w \<Longrightarrow> is_obj (speechRecognizer w) \<Longrightarrow>
   start_microphone env c w =
     (Returned (engine_started env),
      w\<lparr>audioEngine := Some \<lparr>inputNode = Some \<lparr>tapInstalled = True, tap = True\<rparr>,
                               running = (engine_started env \<or>
                                 (case audioEngine w of None \<Rightarrow> False | Some e \<Rightarrow> running e))\<rparr>,
        requests := requests w @ [\<lparr>kind = AudioBufferRequest, shouldReportPartialResults = True\<rparr>],
        request := Some (length (requests w)),
        tasks := tasks w @ [\<lparr>state = Starting, handler = c, task_request = length (requests w)\<rparr>],
        recognitionTask := Some (length (tasks w)),
        trace := trace w @ [RemoveTapOnBus 0, InstallTapOnBus 0, EnginePrepare,
                            EngineStart (engine_started env)]\<rparr>)"
  by (auto simp: start_microphone_def input_node_available_def new_engine_def Let_def
      create_task_present install_and_start_result split: option.splits)

lemma start_url_not_string:
  "(\<And>s. arg_url a \<noteq> JStr s) \<Longrightarrow> start_url a env c w = (Threw TypeError, w)"
  by (cases "arg_url a") (auto simp: start_url_def)

lemma start_url_no_request:
  "arg_url a = JStr s \<Longrightarrow> \<not> request_created env \<Longrightarrow>
   start_url a env c w =
     (Returned False,
      w\<lparr>request := None,
        trace := trace w @ [PathForResource (join_dot (butlast (split_dot s))) (last (split_dot s)),
          ConsoleError ''Unable to created a SFSpeechURLRecognitionRequest object'']\<rparr>)"
  by (simp add: start_url_def Let_def log_def)

lemma start_url_request:
  "arg_url a = JStr s \<Longrightarrow> request_created env \<Longrightarrow>
   start_url a env c w =
     (let w2 = w\<lparr>requests := requests w @
                    [\<lparr>kind = UrlRequest (join_dot (butlast (split_dot s))) (last (split_dot s)),
                      shouldReportPartialResults = True\<rparr>],
                  request := Some (length (requests w)),
                  trace := trace w @
                    [PathForResource (join_dot (butlast (split_dot s))) (last (split_dot s))]\<rparr>;
          w3 = (if is_obj (speechRecognizer w) then w2 else initialize None env w2)
      in (Returned True,
          w3\<lparr>tasks := tasks w @ [\<lparr>state = Starting, handler = c,
                                    task_request = length (requests w)\<rparr>],
             recognitionTask := Some (length (tasks w))\<rparr>))"
  by (simp add: start_url_def Let_def log_def create_task_def initialize_def)

lemma tap_status_audioEngine:
  "audioEngine w' = audioEngine w \<Longrightarrow> tap_status w' = tap_status w"
  by (simp add: tap_status_def)

subsection \<open>Synchronous failures\<close>

text \<open>
  C6, amended.  When startRecognition fails because the type is unknown, because the url
  request could not be constructed, or because the audio engine has no input node, it
  returns false, no task and no request is tracked afterwards, and nothing was created;
  the tap (its flag and its native state) is as it was before the call, installed or not.
  When the engine fails to start, the call returns false as well.
\<close>

theorem synchronous_failure_leaves_idle:
  "((\<not> loose_eq_const (infer_type a) SOURCE_TYPE_URL \<and>
       \<not> loose_eq_const (infer_type a) SOURCE_TYPE_MICROPHONE) \<or>
    (loose_eq_const (infer_type a) SOURCE_TYPE_URL \<and> arg_url a = JStr s \<and> \<not> request_created env) \<or>
    (loose_eq_const (infer_type a) SOURCE_TYPE_MICROPHONE \<and> \<not> input_node_available env w)
    \<longrightarrow>
      fst (startRecognition a env w) = Returned False \<and>
      recognitionTask (snd (startRecognition a env w)) = None \<and>
      request (snd (startRecognition a env w)) = None \<and>
      length (tasks (snd (startRecognition a env w))) = length (tasks w) \<and>
      requests (snd (startRecognition a env w)) = requests w \<and>
      tap_status (snd (startRecognition a env w)) = tap_status w) \<and>
   (loose_eq_const (infer_type a) SOURCE_TYPE_MICROPHONE \<and> input_node_available env w \<and>
    is_obj (speechRecognizer w) \<and> \<not> engine_started env
    \<longrightarrow> fst (startRecognition a env w) = Returned False)"
proof (rule conjI; rule impI)
  assume "(\<not> loose_eq_const (infer_type a) SOURCE_TYPE_URL \<and>
       \<not> loose_eq_const (infer_type a) SOURCE_TYPE_MICROPHONE) \<or>
    (loose_eq_const (infer_type a) SOURCE_TYPE_URL \<and> arg_url a = JStr s \<and> \<not> request_created env) \<or>
    (loose_eq_const (infer_type a) SOURCE_TYPE_MICROPHONE \<and> \<not> input_node_available env w)"
  then consider
      (unknown) "\<not> loose_eq_const (infer_type a) SOURCE_TYPE_URL"
        "\<not> loose_eq_const (infer_type a) SOURCE_TYPE_MICROPHONE"
    | (request) "loose_eq_const (infer_type a) SOURCE_TYPE_URL" "arg_url a = JStr s"
        "\<not> request_created env"
    | (node) "loose_eq_const (infer_type a) SOURCE_TYPE_MICROPHONE" "\<not> input_node_available env w"
    by blast
  then show "fst (startRecognition a env w) = Returned False \<and>
      recognitionTask (snd (startRecognition a env w)) = None \<and>
      request (snd (startRecognition a env w)) = None \<and>
      length (tasks (snd (startRecognition a env w))) = length (tasks w) \<and>
      requests (snd (startRecognition a env w)) = requests w \<and>
      tap_status (snd (startRecognition a env w)) = tap_status w"
  proof cases
    case unknown
    then show ?thesis by (simp add: startRecognition_unknown)
  next
    case request
    then show ?thesis
      by (simp add: startRecognition_url start_url_no_request tap_status_def)
  next
    case node
    then have "\<not> input_node_available env (teardown (warn_no_progress a w))"
      by (simp add: input_node_available_def)
    with node show ?thesis
      by (auto simp: startRecognition_microphone start_microphone_no_node tap_status_def
          input_node_available_def new_engine_def split: option.splits)
  qed
next
  assume "loose_eq_const (infer_type a) SOURCE_TYPE_MICROPHONE \<and> input_node_available env w \<and>
    is_obj (speechRecognizer w) \<and> \<not> engine_started env"
  moreover from this have "input_node_available env (teardown (warn_no_progress a w))"
    by (simp add: input_node_available_def)
  ultimately show "fst (startRecognition a env w) = Returned False"
    by (simp add: startRecognition_microphone start_microphone_started)
qed

text \<open>
  C6 as stated (after a synchronous failure no task, request or tap remains) fails when
  the engine does not start: line 303 returns false after the request (line 256), the task
  (line 260) and the tap (line 296) of this call have been set up, and it leaves them.
\<close>

theorem failed_engine_start_leaves_session:
  "loose_eq_const (infer_type mic_args) SOURCE_TYPE_MICROPHONE \<and>
   fst (startRecognition mic_args (env_ok\<lparr>engine_started := False\<rparr>)
          (initialize None env_ok initial)) = Returned False \<and>
   recognitionTask (snd (startRecognition mic_args (env_ok\<lparr>engine_started := False\<rparr>)
          (initialize None env_ok initial))) = Some 0 \<and>
   active (tasks (snd (startRecognition mic_args (env_ok\<lparr>engine_started := False\<rparr>)
          (initialize None env_ok initial))) ! 0) \<and>
   request (snd (startRecognition mic_args (env_ok\<lparr>engine_started := False\<rparr>)
          (initialize None env_ok initial))) = Some 0 \<and>
   tap_status (snd (startRecognition mic_args (env_ok\<lparr>engine_started := False\<rparr>)
          (initialize None env_ok initial))) = Some (True, True)"
  by code_simp

theorem synchronous_failure_leaves_idle_witness:
  "loose_eq_const (infer_type url_args) SOURCE_TYPE_URL \<and>
   arg_url url_args = JStr ''hello.wav'' \<and>
   \<not> request_created (env_ok\<lparr>request_created := False\<rparr>) \<and>
   fst (startRecognition url_args (env_ok\<lparr>request_created := False\<rparr>) initial) = Returned False \<and>
   recognitionTask (snd (startRecognition url_args (env_ok\<lparr>request_created := False\<rparr>) initial)) = None \<and>
   request (snd (startRecognition url_args (env_ok\<lparr>request_created := False\<rparr>) initial)) = None \<and>
   loose_eq_const (infer_type mic_args) SOURCE_TYPE_MICROPHONE \<and>
   input_node_available (env_ok\<lparr>engine_started := False\<rparr>) (initialize None env_ok initial) \<and>
   is_obj (speechRecognizer (initialize None env_ok initial)) \<and>
   \<not> engine_started (env_ok\<lparr>engine_started := False\<rparr>) \<and>
   fst (startRecognition mic_args (env_ok\<lparr>engine_started := False\<rparr>)
          (initialize None env_ok initial)) = Returned False"
proof -
  have u: "loose_eq_const (infer_type url_args) SOURCE_TYPE_URL"
    by code_simp
  have s: "arg_url url_args = JStr ''hello.wav''"
    by (simp add: url_args_def)
  have r: "\<not> request_created (env_ok\<lparr>request_created := False\<rparr>)"
    by simp
  have m: "loose_eq_const (infer_type mic_args) SOURCE_TYPE_MICROPHONE"
    by code_simp
  have n: "input_node_available (env_ok\<lparr>engine_started := False\<rparr>) (initialize None env_ok initial)"
    by code_simp
  have o: "is_obj (speechRecognizer (initialize None env_ok initial))"
    by code_simp
  have e: "\<not> engine_started (env_ok\<lparr>engine_started := False\<rparr>)"
    by simp
  show ?thesis
    using synchronous_failure_leaves_idle [of url_args "''hello.wav''" "env_ok\<lparr>request_created := False\<rparr>" initial]
      synchronous_failure_leaves_idle [of mic_args "''''" "env_ok\<lparr>engine_started := False\<rparr>" "initialize None env_ok initial"]
      u s r m n o e
    by simp
qed

subsection \<open>Who initializes the recognizer\<close>

text \<open>
  C10 (only url mode initializes the recognizer lazily).  While no recognizer is held, a
  call in microphone mode never returns true and does not create a recognizer: when the
  engine has an input node, line 260 reads a method of the absent recognizer and throws;
  without an input node the call has already returned false.  A call in url mode whose
  request could be constructed calls \<open>initialize()\<close> with no locale, and goes on with
  the recognizer this gave: it holds a recognizer of the default locale afterwards and
  returns true.
\<close>

theorem microphone_needs_initialize:
  "\<not> is_obj (speechRecognizer w) \<Longrightarrow>
   (loose_eq_const (infer_type a) SOURCE_TYPE_MICROPHONE \<longrightarrow>
      fst (startRecognition a env w) \<noteq> Returned True \<and>
      speechRecognizer (snd (startRecognition a env w)) = speechRecognizer w \<and>
      (input_node_available env w \<longrightarrow> fst (startRecognition a env w) = Threw TypeError)) \<and>
   (loose_eq_const (infer_type a) SOURCE_TYPE_URL \<and> arg_url a = JStr s \<and> request_created env \<longrightarrow>
      speechRecognizer (snd (startRecognition a env w)) = Obj \<lparr>locale_id = None\<rparr> \<and>
      fst (startRecognition a env w) = Returned True)"
proof (intro conjI impI)
  assume r: "\<not> is_obj (speechRecognizer w)" and m: "loose_eq_const (infer_type a) SOURCE_TYPE_MICROPHONE"
  let ?w = "teardown (warn_no_progress a w)"
  have r': "\<not> is_obj (speechRecognizer ?w)" using r by simp
  have n: "input_node_available env ?w = input_node_available env w"
    by (simp add: input_node_available_def)
  show "fst (startRecognition a env w) \<noteq> Returned True"
    using m r' n start_microphone_no_recognizer [of env ?w] start_microphone_no_node [of env ?w]
    by (cases "input_node_available env w") (simp_all add: startRecognition_microphone)
  show "speechRecognizer (snd (startRecognition a env w)) = speechRecognizer w"
    using m r' n start_microphone_no_recognizer [of env ?w] start_microphone_no_node [of env ?w]
    by (cases "input_node_available env w") (simp_all add: startRecognition_microphone)
  show "fst (startRecognition a env w) = Threw TypeError" if "input_node_available env w"
    using that m r' n start_microphone_no_recognizer [of env ?w]
    by (simp add: startRecognition_microphone)
next
  assume r: "\<not> is_obj (speechRecognizer w)"
    and u: "loose_eq_const (infer_type a) SOURCE_TYPE_URL \<and> arg_url a = JStr s \<and> request_created env"
  then show "speechRecognizer (snd (startRecognition a env w)) = Obj \<lparr>locale_id = None\<rparr>"
    by (simp add: startRecognition_url start_url_request initialize_recognizer Let_def)
  from r u show "fst (startRecognition a env w) = Returned True"
    by (simp add: startRecognition_url start_url_request Let_def)
qed

theorem microphone_needs_initialize_witness:
  "\<not> is_obj (speechRecognizer initial) \<and>
   loose_eq_const (infer_type mic_args) SOURCE_TYPE_MICROPHONE \<and>
   input_node_available env_ok initial \<and>
   fst (startRecognition mic_args env_ok initial) = Threw TypeError \<and>
   loose_eq_const (infer_type url_args) SOURCE_TYPE_URL \<and>
   arg_url url_args = JStr ''hello.wav'' \<and> request_created env_ok \<and>
   speechRecognizer (snd (startRecognition url_args env_ok initial)) = Obj \<lparr>locale_id = None\<rparr> \<and>
   fst (startRecognition url_args env_ok initial) = Returned True"
proof -
  have r: "\<not> is_obj (speechRecognizer initial)"
    by code_simp
  have m: "loose_eq_const (infer_type mic_args) SOURCE_TYPE_MICROPHONE"
    by code_simp
  have n: "input_node_available env_ok initial"
    by code_simp
  have u: "loose_eq_const (infer_type url_args) SOURCE_TYPE_URL"
    by code_simp
  have s: "arg_url url_args = JStr ''hello.wav''"
    by (simp add: url_args_def)
  have c: "request_created env_ok"
    by (simp add: env_ok_def)
  show ?thesis
    using microphone_needs_initialize [OF r, of mic_args env_ok "''hello.wav''"] microphone_needs_initialize [OF r, of url_args env_ok "''hello.wav''"]
      r m n u s c
    by simp
qed

lemma url_handler_untracked:
  "recognitionTask w = None \<Longrightarrow> url_handler h result err w = w"
  by (simp add: url_handler_def Let_def)

lemma url_handler_canceling:
  "recognitionTask w = Some t \<Longrightarrow> tracked_state w = Some Canceling \<Longrightarrow>
   url_handler h result err w =
     (let c = handler (tasks w ! h) in
      w\<lparr>tasks := (tasks w)[h := (tasks w ! h)\<lparr>handler := c\<lparr>progressCallback := None\<rparr>\<rparr>],
        request := None, recognitionTask := None,
        trace := trace w @ [ConsoleInfo ''The speech recognition task has been cancelled.''] @
          (case progressCallback c of
             Some (Callable f) \<Rightarrow>
               [Progress h f \<lparr>ev_id = instance_id c, ev_error = err,
                  ev_value = map_option formattedString result,
                  ev_state = Some Canceling, ev_finished = Some True\<rparr>]
           | _ \<Rightarrow> [])\<rparr>)"
  by (simp add: url_handler_def Let_def emit_def log_def split: option.splits jsfun.splits)

lemma url_handler_reporting:
  "recognitionTask w = Some t \<Longrightarrow> tracked_state w \<noteq> Some Canceling \<Longrightarrow>
   url_handler h result err w =
     (let c = handler (tasks w ! h);
          w1 = w\<lparr>trace := trace w @
                 (case progressCallback c of
                    Some (Callable f) \<Rightarrow>
                      [Progress h f \<lparr>ev_id = instance_id c, ev_error = err,
                         ev_value = map_option formattedString result,
                         ev_state = tracked_state w,
                         ev_finished = map_option isFinal result\<rparr>]
                  | _ \<Rightarrow> [])\<rparr>
      in if error_or_final result err then w1\<lparr>recognitionTask := None, request := None\<rparr> else w1)"
  by (simp add: url_handler_def Let_def emit_def log_def split: option.splits jsfun.splits)

lemma microphone_handler_snd:
  "snd (microphone_handler h result err w) =
     (let c = handler (tasks w ! h);
          w1 = emit h (progressCallback c)
                 \<lparr>ev_id = instance_id c, ev_error = err,
                  ev_value = map_option formattedString result,
                  ev_state = tracked_state w,
                  ev_finished = map_option isFinal result\<rparr> w;
          w2 = snd (end_audio (stop_if_running (remove_tap_if_installed w1)))
      in if error_or_final result err
         then (if ends_audio w then w2\<lparr>recognitionTask := None\<rparr> else w2)
         else w1)"
  by (simp add: microphone_handler_def Let_def case_end_audio)

lemma microphone_handler_fst:
  "fst (microphone_handler h result err w) =
     (if error_or_final result err \<and> \<not> ends_audio w then Threw TypeError else Returned ())"
  by (simp add: microphone_handler_def Let_def case_end_audio)

lemma microphone_handler_fields [simp]:
  "tasks (snd (microphone_handler h result err w)) = tasks w"
  "request (snd (microphone_handler h result err w)) = request w"
  "speechRecognizer (snd (microphone_handler h result err w)) = speechRecognizer w"
  "requests (snd (microphone_handler h result err w)) = requests w"
  "recognitionTask (snd (microphone_handler h result err w)) =
     (if error_or_final result err \<and> ends_audio w then None else recognitionTask w)"
  by (simp_all add: microphone_handler_snd Let_def)

lemma teardown_calls:
  "trace (snd (end_audio (stop_if_running (remove_tap_if_installed w)))) =
     trace w @
     (case audioEngine w of
        None \<Rightarrow> []
      | Some e \<Rightarrow>
          (case inputNode e of
             None \<Rightarrow> []
           | Some n \<Rightarrow> if tapInstalled n then [RemoveTapOnBus 0] else []) @
          (if running e then [EngineStop] else [])) @
     (case request w of None \<Rightarrow> [] | Some r \<Rightarrow> if ends_audio w then [EndAudio r] else [])"
  by (auto simp: end_audio_trace stop_if_running_def remove_tap_if_installed_def remove_tap_def
      log_def ends_audio_def split: option.splits)

lemma teardown_engine:
  "audioEngine (stop_if_running (remove_tap_if_installed w)) =
     (case audioEngine w of
        None \<Rightarrow> None
      | Some e \<Rightarrow>
          Some (e\<lparr>inputNode :=
                    (case inputNode e of
                       None \<Rightarrow> None
                     | Some n \<Rightarrow>
                         Some (if tapInstalled n then n\<lparr>tapInstalled := False, tap := False\<rparr> else n)),
                  running := False\<rparr>))"
  by (auto simp: stop_if_running_def remove_tap_if_installed_def remove_tap_def
      log_def split: option.splits)

lemma microphone_handler_trace:
  "trace (snd (microphone_handler h result err w)) =
     trace w @
     (case progressCallback (handler (tasks w ! h)) of
        Some (Callable f) \<Rightarrow>
          [Progress h f \<lparr>ev_id = instance_id (handler (tasks w ! h)), ev_error = err,
             ev_value = map_option formattedString result,
             ev_state = tracked_state w,
             ev_finished = map_option isFinal result\<rparr>]
      | _ \<Rightarrow> []) @
     (if error_or_final result err
      then (case audioEngine w of
              None \<Rightarrow> []
            | Some e \<Rightarrow>
                (case inputNode e of
                   None \<Rightarrow> []
                 | Some n \<Rightarrow> if tapInstalled n then [RemoveTapOnBus 0] else []) @
                (if running e then [EngineStop] else [])) @
           (case request w of None \<Rightarrow> [] | Some r \<Rightarrow> if ends_audio w then [EndAudio r] else [])
      else [])"
  by (simp add: microphone_handler_snd Let_def teardown_calls emit_trace cong: option.case_cong)

lemma microphone_handler_engine:
  "audioEngine (snd (microphone_handler h result err w)) =
     (if error_or_final result err
      then (case audioEngine w of
              None \<Rightarrow> None
            | Some e \<Rightarrow>
                Some (e\<lparr>inputNode :=
                          (case inputNode e of
                             None \<Rightarrow> None
                           | Some n \<Rightarrow>
                               Some (if tapInstalled n
                                     then n\<lparr>tapInstalled := False, tap := False\<rparr> else n)),
                        running := False\<rparr>))
      else audioEngine w)"
  by (simp add: microphone_handler_snd Let_def teardown_engine)

lemma native_calls_progress [simp]:
  "native_calls (case cb of None \<Rightarrow> [] | Some NotCallable \<Rightarrow> [] | Some (Callable f) \<Rightarrow> [Progress h f ev]) = []"
  by (simp split: option.splits jsfun.splits)

subsection \<open>A result handler receiving an error or a final result\<close>

text \<open>
  C5, amended.  When a result handler is called with an error or with a final result:
  the url handler leaves no task tracked and, if a task was tracked, no request either,
  and it makes no native call and leaves the audio engine as it is; the microphone handler
  removes the tap if the input node carries the \<open>tapInstalled\<close> flag (clearing it) and
  stops the engine if it is running, and the request stays tracked; when that request is
  none or an audio-buffer request, as it is unless a url session was started in between,
  the handler then calls \<open>endAudio\<close> on it and forgets the task.
\<close>

theorem handler_on_error_or_final:
  "h < length (tasks w) \<Longrightarrow> error_or_final result err \<Longrightarrow>
   (case mode (handler (tasks w ! h)) of
      Url \<Rightarrow>
        recognitionTask (step (Fire h result err) w) = None \<and>
        (recognitionTask w = None \<or> request (step (Fire h result err) w) = None) \<and>
        audioEngine (step (Fire h result err) w) = audioEngine w \<and>
        native_calls (trace (step (Fire h result err) w)) = native_calls (trace w)
    | Microphone \<Rightarrow>
        request (step (Fire h result err) w) = request w \<and>
        audioEngine (step (Fire h result err) w) =
          (case audioEngine w of
             None \<Rightarrow> None
           | Some e \<Rightarrow>
               Some (e\<lparr>inputNode :=
                         (case inputNode e of
                            None \<Rightarrow> None
                          | Some n \<Rightarrow>
                              Some (if tapInstalled n
                                    then n\<lparr>tapInstalled := False, tap := False\<rparr> else n)),
                       running := False\<rparr>)) \<and>
        (ends_audio w \<longrightarrow>
           fst (microphone_handler h result err w) = Returned () \<and>
           recognitionTask (step (Fire h result err) w) = None \<and>
           native_calls (trace (step (Fire h result err) w)) =
             native_calls (trace w) @
             (case audioEngine w of
                None \<Rightarrow> []
              | Some e \<Rightarrow>
                  (case inputNode e of
                     None \<Rightarrow> []
                   | Some n \<Rightarrow> if tapInstalled n then [RemoveTapOnBus 0] else []) @
                  (if running e then [EngineStop] else [])) @
             (case request w of None \<Rightarrow> [] | Some r \<Rightarrow> [EndAudio r])))"
proof (cases "mode (handler (tasks w ! h))")
  case Url
  assume h: "h < length (tasks w)" and f: "error_or_final result err"
  show ?thesis
  proof (cases "recognitionTask w")
    case None
    with Url h show ?thesis by (simp add: url_handler_untracked)
  next
    case (Some t)
    show ?thesis
    proof (cases "tracked_state w = Some Canceling")
      case True
      with Url h Some show ?thesis
        by (simp add: url_handler_canceling [OF Some True] Let_def)
    next
      case False
      with Url h f Some show ?thesis
        by (simp add: url_handler_reporting [OF Some False] Let_def)
    qed
  qed
next
  case Microphone
  assume h: "h < length (tasks w)" and f: "error_or_final result err"
  with Microphone show ?thesis
    by (simp add: microphone_handler_trace microphone_handler_engine microphone_handler_fst
        split: option.splits)
qed

text \<open>
  C5 as stated (the tracked request is cleared in both modes) fails in microphone mode:
  after an error, and after a final result, the request of the session is still tracked.
\<close>

theorem microphone_handler_keeps_request:
  "mode (handler (tasks (run [Initialize None env_ok, StartRecognition mic_args env_ok] initial) ! 0))
     = Microphone \<and>
   request (run [Initialize None env_ok, StartRecognition mic_args env_ok] initial) = Some 0 \<and>
   error_or_final None (Some 1) \<and>
   request (run [Initialize None env_ok, StartRecognition mic_args env_ok, Fire 0 None (Some 1)]
     initial) = Some 0 \<and>
   error_or_final (Some final_result) None \<and>
   request (run [Initialize None env_ok, StartRecognition mic_args env_ok,
     Fire 0 (Some final_result) None] initial) = Some 0"
  by code_simp

theorem handler_on_error_or_final_witness:
  "(0::nat) < length (tasks (run [Initialize None env_ok, StartRecognition mic_args env_ok] initial)) \<and>
   error_or_final (Some final_result) None \<and>
   mode (handler (tasks (run [Initialize None env_ok, StartRecognition mic_args env_ok] initial) ! 0))
     = Microphone \<and>
   ends_audio (run [Initialize None env_ok, StartRecognition mic_args env_ok] initial) \<and>
   recognitionTask (step (Fire 0 (Some final_result) None)
     (run [Initialize None env_ok, StartRecognition mic_args env_ok] initial)) = None \<and>
   native_calls (trace (step (Fire 0 (Some final_result) None)
     (run [Initialize None env_ok, StartRecognition mic_args env_ok] initial))) =
     [RemoveTapOnBus 0, InstallTapOnBus 0, EnginePrepare, EngineStart True,
      RemoveTapOnBus 0, EngineStop, EndAudio 0] \<and>
   (0::nat) < length (tasks (run [StartRecognition url_args env_ok] initial)) \<and>
   mode (handler (tasks (run [StartRecognition url_args env_ok] initial) ! 0)) = Url \<and>
   recognitionTask (step (Fire 0 (Some final_result) None)
     (run [StartRecognition url_args env_ok] initial)) = None \<and>
   request (step (Fire 0 (Some final_result) None)
     (run [StartRecognition url_args env_ok] initial)) = None"
proof -
  let ?m = "run [Initialize None env_ok, StartRecognition mic_args env_ok] initial"
  let ?u = "run [StartRecognition url_args env_ok] initial"
  have f: "error_or_final (Some final_result) None"
    by code_simp
  have m: "(0::nat) < length (tasks ?m)" "mode (handler (tasks ?m ! 0)) = Microphone"
    by code_simp+
  have u: "(0::nat) < length (tasks ?u)" "mode (handler (tasks ?u ! 0)) = Url"
    by code_simp+
  have tm: "native_calls (trace ?m) = [RemoveTapOnBus 0, InstallTapOnBus 0, EnginePrepare, EngineStart True]"
    "audioEngine ?m = Some \<lparr>inputNode = Some \<lparr>tapInstalled = True, tap = True\<rparr>, running = True\<rparr>"
    "request ?m = Some 0" "ends_audio ?m"
    by code_simp+
  have tu: "recognitionTask ?u = Some 0"
    by code_simp
  show ?thesis
    using handler_on_error_or_final [OF m(1) f] handler_on_error_or_final [OF u(1) f] f m u tm tu
    by simp
qed

subsection \<open>What a call of startRecognition creates\<close>

lemma start_url_tasks:
  "tasks (snd (start_url a env c w)) = tasks w \<and>
     recognitionTask (snd (start_url a env c w)) = recognitionTask w \<and>
     fst (start_url a env c w) \<noteq> Returned True \<or>
   tasks (snd (start_url a env c w)) =
     tasks w @ [\<lparr>state = Starting, handler = c, task_request = length (requests w)\<rparr>] \<and>
     recognitionTask (snd (start_url a env c w)) = Some (length (tasks w))"
proof (cases "\<exists>s. arg_url a = JStr s")
  case False
  then show ?thesis by (simp add: start_url_not_string)
next
  case True
  then obtain s where s: "arg_url a = JStr s" ..
  show ?thesis
  proof (cases "request_created env")
    case False
    with s show ?thesis by (simp add: start_url_no_request)
  next
    case True
    with s show ?thesis by (simp add: start_url_request Let_def)
  qed
qed

lemma start_url_events [simp]:
  "handler_events h (trace (snd (start_url a env c w))) = handler_events h (trace w)"
proof (cases "\<exists>s. arg_url a = JStr s")
  case False
  then show ?thesis by (simp add: start_url_not_string)
next
  case True
  then obtain s where s: "arg_url a = JStr s" ..
  show ?thesis
  proof (cases "request_created env")
    case False
    with s show ?thesis by (simp add: start_url_no_request)
  next
    case True
    with s show ?thesis by (simp add: start_url_request Let_def)
  qed
qed

lemma start_microphone_tasks:
  "tasks (snd (start_microphone env c w)) = tasks w \<and>
     recognitionTask (snd (start_microphone env c w)) = recognitionTask w \<and>
     fst (start_microphone env c w) \<noteq> Returned True \<or>
   tasks (snd (start_microphone env c w)) =
     tasks w @ [\<lparr>state = Starting, handler = c, task_request = length (requests w)\<rparr>] \<and>
     recognitionTask (snd (start_microphone env c w)) = Some (length (tasks w))"
proof (cases "input_node_available env w")
  case False
  then show ?thesis by (simp add: start_microphone_no_node)
next
  case True
  then show ?thesis
    using start_microphone_no_recognizer [OF True, of c]
    by (cases "is_obj (speechRecognizer w)") (simp_all add: start_microphone_started)
qed

lemma start_microphone_events [simp]:
  "handler_events h (trace (snd (start_microphone env c w))) = handler_events h (trace w)"
proof (cases "input_node_available env w")
  case False
  then show ?thesis by (simp add: start_microphone_no_node)
next
  case True
  then show ?thesis
    using start_microphone_no_recognizer [OF True, of c]
    by (cases "is_obj (speechRecognizer w)") (simp_all add: start_microphone_started)
qed

lemma teardown_events [simp]:
  "handler_events h (trace (teardown w)) = handler_events h (trace w)"
  by (simp add: teardown_trace split: option.splits)

lemma warn_no_progress_events [simp]:
  "handler_events h (trace (warn_no_progress a w)) = handler_events h (trace w)"
  by (simp add: warn_no_progress_def)

text \<open>
  A call either creates nothing and tracks nothing, or appends one task, in its first
  state and closed over the call's \<open>id\<close> and \<open>progress\<close>, and tracks it.
\<close>

lemma startRecognition_tasks:
  "tasks (snd (startRecognition a env w)) = tasks (teardown w) \<and>
     recognitionTask (snd (startRecognition a env w)) = None \<and>
     fst (startRecognition a env w) \<noteq> Returned True \<or>
   (\<exists>m r. tasks (snd (startRecognition a env w)) =
      tasks (teardown w) @
        [\<lparr>state = Starting,
          handler = \<lparr>mode = m, instance_id = arg_id a, progressCallback = arg_progress a\<rparr>,
          task_request = r\<rparr>]) \<and>
     recognitionTask (snd (startRecognition a env w)) = Some (length (tasks w))"
proof -
  let ?w = "teardown (warn_no_progress a w)"
  have t: "tasks ?w = tasks (teardown w)"
    by (simp add: teardown_tasks warn_no_progress_def split: option.splits)
  have n: "recognitionTask ?w = None" "length (tasks ?w) = length (tasks w)"
    by simp_all
  consider (url) "loose_eq_const (infer_type a) SOURCE_TYPE_URL"
    | (mic) "loose_eq_const (infer_type a) SOURCE_TYPE_MICROPHONE"
    | (unknown) "\<not> loose_eq_const (infer_type a) SOURCE_TYPE_URL"
        "\<not> loose_eq_const (infer_type a) SOURCE_TYPE_MICROPHONE"
    by blast
  then show ?thesis
  proof cases
    case url
    show ?thesis
      using start_url_tasks [of a env
          "\<lparr>mode = Url, instance_id = arg_id a, progressCallback = arg_progress a\<rparr>" ?w] t n
      by (auto simp: startRecognition_url [OF url])
  next
    case mic
    show ?thesis
      using start_microphone_tasks [of env
          "\<lparr>mode = Microphone, instance_id = arg_id a, progressCallback = arg_progress a\<rparr>" ?w] t n
      by (auto simp: startRecognition_microphone [OF mic])
  next
    case unknown
    then show ?thesis using t by (simp add: startRecognition_unknown)
  qed
qed

lemma startRecognition_events [simp]:
  "handler_events h (trace (snd (startRecognition a env w))) = handler_events h (trace w)"
proof -
  consider (url) "loose_eq_const (infer_type a) SOURCE_TYPE_URL"
    | (mic) "loose_eq_const (infer_type a) SOURCE_TYPE_MICROPHONE"
    | (unknown) "\<not> loose_eq_const (infer_type a) SOURCE_TYPE_URL"
        "\<not> loose_eq_const (infer_type a) SOURCE_TYPE_MICROPHONE"
    by blast
  then show ?thesis
    by cases (simp_all add: startRecognition_url startRecognition_microphone
        startRecognition_unknown)
qed

lemma startRecognition_length:
  "length (tasks w) \<le> length (tasks (snd (startRecognition a env w)))"
  using startRecognition_tasks [of a env w] by auto

lemma startRecognition_handler:
  "i < length (tasks w) \<Longrightarrow>
   handler (tasks (snd (startRecognition a env w)) ! i) = handler (tasks w ! i)"
  using startRecognition_tasks [of a env w] by (auto simp: nth_append)

lemma startRecognition_new_handler:
  "length (tasks (snd (startRecognition a env w))) \<noteq> length (tasks w) \<Longrightarrow>
   length (tasks (snd (startRecognition a env w))) = Suc (length (tasks w)) \<and>
   instance_id (handler (tasks (snd (startRecognition a env w)) ! length (tasks w))) = arg_id a \<and>
   progressCallback (handler (tasks (snd (startRecognition a env w)) ! length (tasks w))) =
     arg_progress a"
  using startRecognition_tasks [of a env w] by (auto simp: nth_append)

subsection \<open>What a step does to the closures and to the progress events\<close>

lemma url_handler_length [simp]:
  "length (tasks (url_handler h result err w)) = length (tasks w)"
  by (simp add: url_handler_def Let_def split: option.splits)

lemma url_handler_closure:
  "i < length (tasks w) \<Longrightarrow>
   mode (handler (tasks (url_handler h result err w) ! i)) = mode (handler (tasks w ! i)) \<and>
   instance_id (handler (tasks (url_handler h result err w) ! i)) =
     instance_id (handler (tasks w ! i)) \<and>
   (progressCallback (handler (tasks (url_handler h result err w) ! i)) = None \<or>
    progressCallback (handler (tasks (url_handler h result err w) ! i)) =
      progressCallback (handler (tasks w ! i)))"
  by (cases "i = h") (simp_all add: url_handler_def Let_def split: option.splits)

lemma url_handler_events_other:
  "k \<noteq> h \<Longrightarrow>
   handler_events k (trace (url_handler h result err w)) = handler_events k (trace w)"
  by (simp add: url_handler_def Let_def emit_trace split: option.splits jsfun.splits)

lemma url_handler_events_silent:
  "progressCallback (handler (tasks w ! h)) = None \<Longrightarrow>
   handler_events k (trace (url_handler h result err w)) = handler_events k (trace w)"
  by (simp add: url_handler_def Let_def emit_trace split: option.splits)

lemma url_handler_events_id:
  "(f, ev) \<in> set (handler_events h (trace (url_handler h result err w))) \<Longrightarrow>
   (f, ev) \<in> set (handler_events h (trace w)) \<or> ev_id ev = instance_id (handler (tasks w ! h))"
  by (auto simp: url_handler_def Let_def emit_trace split: option.splits jsfun.splits if_splits)

lemma microphone_handler_events_other:
  "k \<noteq> h \<Longrightarrow>
   handler_events k (trace (snd (microphone_handler h result err w))) = handler_events k (trace w)"
  by (simp add: microphone_handler_trace split: option.splits jsfun.splits)

lemma microphone_handler_events_silent:
  "progressCallback (handler (tasks w ! h)) = None \<Longrightarrow>
   handler_events k (trace (snd (microphone_handler h result err w))) = handler_events k (trace w)"
  by (simp add: microphone_handler_trace split: option.splits)

lemma microphone_handler_events_id:
  "(f, ev) \<in> set (handler_events h (trace (snd (microphone_handler h result err w)))) \<Longrightarrow>
   (f, ev) \<in> set (handler_events h (trace w)) \<or> ev_id ev = instance_id (handler (tasks w ! h))"
  by (auto simp: microphone_handler_trace split: option.splits jsfun.splits if_splits)

lemma stopRecognition_length [simp]:
  "length (tasks (snd (stopRecognition w))) = length (tasks w)"
  by (simp add: stopRecognition_def case_end_audio split: option.splits)

lemma stopRecognition_handler:
  "i < length (tasks w) \<Longrightarrow> handler (tasks (snd (stopRecognition w)) ! i) = handler (tasks w ! i)"
  by (simp add: stopRecognition_def case_end_audio split: option.splits)

lemma helper_events [simp]:
  "handler_events h (trace (remove_tap_if_installed w)) = handler_events h (trace w)"
  "handler_events h (trace (stop_if_running w)) = handler_events h (trace w)"
  "handler_events h (trace (snd (end_audio w))) = handler_events h (trace w)"
  "handler_events h (trace (cancel t w)) = handler_events h (trace w)"
  by (simp_all add: remove_tap_if_installed_def stop_if_running_def end_audio_def
      split: option.splits)

lemma stopRecognition_events [simp]:
  "handler_events h (trace (snd (stopRecognition w))) = handler_events h (trace w)"
  by (simp add: stopRecognition_def case_end_audio split: option.splits)

lemma step_length:
  "length (tasks w) \<le> length (tasks (step a w))"
  by (cases a) (simp_all add: startRecognition_length split: source_type.splits)

lemma step_closure:
  "i < length (tasks w) \<Longrightarrow>
   mode (handler (tasks (step a w) ! i)) = mode (handler (tasks w ! i)) \<and>
   instance_id (handler (tasks (step a w) ! i)) = instance_id (handler (tasks w ! i)) \<and>
   (progressCallback (handler (tasks (step a w) ! i)) = None \<or>
    progressCallback (handler (tasks (step a w) ! i)) = progressCallback (handler (tasks w ! i)))"
proof (cases a)
  case (Fire h result err)
  assume "i < length (tasks w)"
  with Fire show ?thesis
    using url_handler_closure [of i w h result err]
    by (simp split: source_type.splits)
qed (simp_all add: startRecognition_handler stopRecognition_handler nth_list_update)

lemma step_events_ghost:
  "length (tasks w) \<le> h \<Longrightarrow> handler_events h (trace (step a w)) = handler_events h (trace w)"
  by (cases a)
    (auto simp: url_handler_events_other microphone_handler_events_other split: source_type.splits)

lemma step_events_silent:
  "progressCallback (handler (tasks w ! h)) = None \<Longrightarrow>
   handler_events h (trace (step a w)) = handler_events h (trace w)"
proof (cases a)
  case (Fire k result err)
  assume n: "progressCallback (handler (tasks w ! h)) = None"
  show ?thesis
  proof (cases "k = h")
    case True
    with Fire n show ?thesis
      by (simp add: url_handler_events_silent microphone_handler_events_silent
          split: source_type.splits)
  next
    case False
    with Fire show ?thesis
      by (simp add: url_handler_events_other microphone_handler_events_other
          split: source_type.splits)
  qed
qed simp_all

lemma step_events_id:
  "(f, ev) \<in> set (handler_events h (trace (step a w))) \<Longrightarrow>
   (f, ev) \<in> set (handler_events h (trace w)) \<or> ev_id ev = instance_id (handler (tasks w ! h))"
proof (cases a)
  case (Fire k result err)
  assume e: "(f, ev) \<in> set (handler_events h (trace (step a w)))"
  show ?thesis
  proof (cases "k = h")
    case True
    with Fire e show ?thesis
      using url_handler_events_id [of f ev h result err w]
        microphone_handler_events_id [of f ev h result err w]
      by (simp split: source_type.splits if_splits)
  next
    case False
    with Fire e show ?thesis
      by (simp add: url_handler_events_other microphone_handler_events_other
          split: source_type.splits if_splits)
  qed
qed (simp_all split: if_splits)

subsection \<open>Runs\<close>

lemma run_append: "run (xs @ ys) w = run ys (run xs w)"
  by (induction xs arbitrary: w) simp_all

lemma run_length: "length (tasks w) \<le> length (tasks (run acts w))"
proof (induction acts arbitrary: w)
  case Nil
  show ?case by simp
next
  case (Cons a acts)
  have "length (tasks w) \<le> length (tasks (step a w))" by (rule step_length)
  also have "\<dots> \<le> length (tasks (run acts (step a w)))" by (rule Cons.IH)
  finally show ?case by simp
qed

text \<open>No progress event is attributed to a task that does not exist yet.\<close>

lemma run_events_ghost:
  "\<forall>h \<ge> length (tasks w). handler_events h (trace w) = [] \<Longrightarrow>
   length (tasks (run acts w)) \<le> h \<Longrightarrow> handler_events h (trace (run acts w)) = []"
proof (induction acts arbitrary: w)
  case Nil
  then show ?case by simp
next
  case (Cons a acts)
  have "\<forall>k \<ge> length (tasks (step a w)). handler_events k (trace (step a w)) = []"
  proof (intro allI impI)
    fix k assume "length (tasks (step a w)) \<le> k"
    with step_length [of w a] have "length (tasks w) \<le> k" by simp
    with Cons.prems(1) show "handler_events k (trace (step a w)) = []"
      by (simp add: step_events_ghost)
  qed
  with Cons.IH [of "step a w"] Cons.prems(2) show ?case by simp
qed

lemma initial_events_ghost:
  "length (tasks (run acts initial)) \<le> h \<Longrightarrow> handler_events h (trace (run acts initial)) = []"
  by (rule run_events_ghost) (simp_all add: initial_def)

text \<open>The closure of an existing task keeps its \<open>instance\<close>, and its events carry it.\<close>

lemma run_events_id:
  "h < length (tasks w) \<Longrightarrow> instance_id (handler (tasks w ! h)) = x \<Longrightarrow>
   \<forall>(f, ev) \<in> set (handler_events h (trace w)). ev_id ev = x \<Longrightarrow>
   \<forall>(f, ev) \<in> set (handler_events h (trace (run acts w))). ev_id ev = x"
proof (induction acts arbitrary: w)
  case Nil
  then show ?case by simp
next
  case (Cons a acts)
  have l: "h < length (tasks (step a w))"
    using step_length [of w a] Cons.prems(1) by simp
  have i: "instance_id (handler (tasks (step a w) ! h)) = x"
    using step_closure [OF Cons.prems(1), of a] Cons.prems(2) by simp
  have e: "\<forall>(f, ev) \<in> set (handler_events h (trace (step a w))). ev_id ev = x"
    using step_events_id [of _ _ h a w] Cons.prems(2,3) by fastforce
  from Cons.IH [OF l i e] show ?case by simp
qed

text \<open>A closure whose \<open>progressCallback\<close> is \<open>null\<close> stays so and delivers nothing.\<close>

lemma run_events_silent:
  "h < length (tasks w) \<Longrightarrow> progressCallback (handler (tasks w ! h)) = None \<Longrightarrow>
   handler_events h (trace (run acts w)) = handler_events h (trace w)"
proof (induction acts arbitrary: w)
  case Nil
  show ?case by simp
next
  case (Cons a acts)
  have l: "h < length (tasks (step a w))"
    using step_length [of w a] Cons.prems(1) by simp
  have n: "progressCallback (handler (tasks (step a w) ! h)) = None"
    using step_closure [OF Cons.prems(1), of a] Cons.prems(2) by auto
  from Cons.IH [OF l n] Cons.prems(2) show ?case
    by (simp add: step_events_silent)
qed

subsection \<open>The correlation token\<close>

text \<open>
  C9 (every progress event of a startRecognition call carries the \<open>id\<close> of that call).
  Take any run of the module from its loaded state: application calls, state changes of
  tasks and handler invocations, in any order.  If a call of startRecognition in it
  created a task, then every progress event the handler of that task delivers, up to any
  later point of the run, has the \<open>id\<close> field equal to the \<open>id\<close> argument of that call.
\<close>

theorem progress_events_carry_id:
  "length (tasks (snd (startRecognition a env (run pre initial)))) \<noteq> length (tasks (run pre initial))
   \<Longrightarrow>
   (f, ev) \<in> set (handler_events (length (tasks (run pre initial)))
      (trace (run (pre @ StartRecognition a env # post) initial)))
   \<Longrightarrow> ev_id ev = arg_id a"
proof -
  let ?w1 = "run pre initial"
  let ?w2 = "snd (startRecognition a env ?w1)"
  let ?h = "length (tasks ?w1)"
  assume c: "length (tasks ?w2) \<noteq> ?h"
    and e: "(f, ev) \<in> set (handler_events ?h
      (trace (run (pre @ StartRecognition a env # post) initial)))"
  from startRecognition_new_handler [OF c]
  have l: "?h < length (tasks ?w2)" and i: "instance_id (handler (tasks ?w2 ! ?h)) = arg_id a"
    by simp_all
  have "handler_events ?h (trace ?w1) = []"
    by (rule initial_events_ghost) simp
  then have n: "\<forall>(f, ev) \<in> set (handler_events ?h (trace ?w2)). ev_id ev = arg_id a"
    by simp
  have "\<forall>(f, ev) \<in> set (handler_events ?h (trace (run post ?w2))). ev_id ev = arg_id a"
    by (rule run_events_id [OF l i n])
  with e show ?thesis
    by (auto simp: run_append)
qed

theorem progress_events_carry_id_witness:
  "length (tasks (snd (startRecognition url_args env_ok (run [] initial)))) \<noteq>
     length (tasks (run [] initial)) \<and>
   (7, \<lparr>ev_id = JNum 5, ev_error = None, ev_value = Some ''hel'', ev_state = Some Starting,
        ev_finished = Some False\<rparr>)
     \<in> set (handler_events (length (tasks (run [] initial)))
          (trace (run ([] @ StartRecognition url_args env_ok # [Fire 0 (Some partial_result) None])
             initial))) \<and>
   ev_id \<lparr>ev_id = JNum 5, ev_error = None, ev_value = Some ''hel'', ev_state = Some Starting,
        ev_finished = Some False\<rparr> = arg_id url_args"
proof -
  have c: "length (tasks (snd (startRecognition url_args env_ok (run [] initial)))) \<noteq>
     length (tasks (run [] initial))"
    by code_simp
  have e: "(7, \<lparr>ev_id = JNum 5, ev_error = None, ev_value = Some ''hel'', ev_state = Some Starting,
        ev_finished = Some False\<rparr>)
     \<in> set (handler_events (length (tasks (run [] initial)))
          (trace (run ([] @ StartRecognition url_args env_ok # [Fire 0 (Some partial_result) None])
             initial)))"
    by code_simp
  from progress_events_carry_id [OF c e] c e show ?thesis by simp
qed

subsection \<open>A handler that sees the canceling state\<close>

text \<open>
  C4, amended.  When the handler built in url mode is called while the tracked task is in
  the canceling state, it delivers exactly one progress event if the call was given a
  progress function (none otherwise), with \<open>finished\<close> true; after that no task and no
  request is tracked and the handler's \<open>progressCallback\<close> is \<open>null\<close>; and whatever
  happens afterwards, that handler delivers no further progress event.
\<close>

theorem url_cancellation_is_terminal:
  "h < length (tasks w) \<Longrightarrow> mode (handler (tasks w ! h)) = Url \<Longrightarrow>
   tracked_state w = Some Canceling \<Longrightarrow>
   handler_events h (trace (step (Fire h result err) w)) =
     handler_events h (trace w) @
     (case progressCallback (handler (tasks w ! h)) of
        Some (Callable f) \<Rightarrow>
          [(f, \<lparr>ev_id = instance_id (handler (tasks w ! h)), ev_error = err,
                ev_value = map_option formattedString result,
                ev_state = Some Canceling, ev_finished = Some True\<rparr>)]
      | _ \<Rightarrow> []) \<and>
   recognitionTask (step (Fire h result err) w) = None \<and>
   request (step (Fire h result err) w) = None \<and>
   progressCallback (handler (tasks (step (Fire h result err) w) ! h)) = None \<and>
   handler_events h (trace (run acts (step (Fire h result err) w))) =
     handler_events h (trace (step (Fire h result err) w))"
proof -
  assume h: "h < length (tasks w)" and m: "mode (handler (tasks w ! h)) = Url"
    and c: "tracked_state w = Some Canceling"
  from c obtain t where t: "recognitionTask w = Some t"
    by (auto simp: tracked_state_def split: option.splits)
  let ?w = "step (Fire h result err) w"
  have s: "?w = url_handler h result err w"
    using h m by simp
  have e: "handler_events h (trace ?w) =
     handler_events h (trace w) @
     (case progressCallback (handler (tasks w ! h)) of
        Some (Callable f) \<Rightarrow>
          [(f, \<lparr>ev_id = instance_id (handler (tasks w ! h)), ev_error = err,
                ev_value = map_option formattedString result,
                ev_state = Some Canceling, ev_finished = Some True\<rparr>)]
      | _ \<Rightarrow> [])"
    unfolding s url_handler_canceling [OF t c]
    by (simp add: Let_def split: option.splits jsfun.splits)
  have f: "recognitionTask ?w = None" "request ?w = None"
    "progressCallback (handler (tasks ?w ! h)) = None" "h < length (tasks ?w)"
    unfolding s url_handler_canceling [OF t c] using h by (simp_all add: Let_def)
  have r: "handler_events h (trace (run acts ?w)) = handler_events h (trace ?w)"
    by (rule run_events_silent [OF f(4) f(3)])
  from e f r show ?thesis by simp
qed

text \<open>
  C4 as stated (in both modes) fails for the handler built in microphone mode, which never
  reads the task state to decide anything: called twice with a partial result while the
  tracked task is in the canceling state, it delivers two progress events, neither with
  \<open>finished\<close> true, and the task and the request stay tracked.
\<close>

theorem microphone_handler_ignores_canceling:
  "mode (handler (tasks (run [Initialize None env_ok, StartRecognition mic_args env_ok,
      NativeTaskState 0 Canceling] initial) ! 0)) = Microphone \<and>
   tracked_state (run [Initialize None env_ok, StartRecognition mic_args env_ok,
      NativeTaskState 0 Canceling] initial) = Some Canceling \<and>
   handler_events 0 (trace (run [Initialize None env_ok, StartRecognition mic_args env_ok,
      NativeTaskState 0 Canceling, Fire 0 (Some partial_result) None,
      Fire 0 (Some partial_result) None] initial)) =
     [(7, \<lparr>ev_id = JNum 6, ev_error = None, ev_value = Some ''hel'',
           ev_state = Some Canceling, ev_finished = Some False\<rparr>),
      (7, \<lparr>ev_id = JNum 6, ev_error = None, ev_value = Some ''hel'',
           ev_state = Some Canceling, ev_finished = Some False\<rparr>)] \<and>
   recognitionTask (run [Initialize None env_ok, StartRecognition mic_args env_ok,
      NativeTaskState 0 Canceling, Fire 0 (Some partial_result) None] initial) = Some 0 \<and>
   request (run [Initialize None env_ok, StartRecognition mic_args env_ok,
      NativeTaskState 0 Canceling, Fire 0 (Some partial_result) None] initial) = Some 0"
  by code_simp

theorem url_cancellation_is_terminal_witness:
  "(0::nat) < length (tasks (run [StartRecognition url_args env_ok, StopRecognition] initial)) \<and>
   mode (handler (tasks (run [StartRecognition url_args env_ok, StopRecognition] initial) ! 0)) = Url \<and>
   tracked_state (run [StartRecognition url_args env_ok, StopRecognition] initial) = Some Canceling \<and>
   handler_events 0 (trace (step (Fire 0 None (Some 216))
      (run [StartRecognition url_args env_ok, StopRecognition] initial))) =
     [(7, \<lparr>ev_id = JNum 5, ev_error = Some 216, ev_value = None,
           ev_state = Some Canceling, ev_finished = Some True\<rparr>)] \<and>
   recognitionTask (step (Fire 0 None (Some 216))
      (run [StartRecognition url_args env_ok, StopRecognition] initial)) = None \<and>
   request (step (Fire 0 None (Some 216))
      (run [StartRecognition url_args env_ok, StopRecognition] initial)) = None \<and>
   handler_events 0 (trace (run [Fire 0 (Some final_result) None, StartRecognition url_args env_ok,
        Fire 0 (Some final_result) None]
      (step (Fire 0 None (Some 216))
        (run [StartRecognition url_args env_ok, StopRecognition] initial)))) =
   handler_events 0 (trace (step (Fire 0 None (Some 216))
      (run [StartRecognition url_args env_ok, StopRecognition] initial)))"
proof -
  let ?w = "run [StartRecognition url_args env_ok, StopRecognition] initial"
  have h: "(0::nat) < length (tasks ?w)"
    by code_simp
  have m: "mode (handler (tasks ?w ! 0)) = Url"
    by code_simp
  have c: "tracked_state ?w = Some Canceling"
    by code_simp
  have e: "handler_events 0 (trace (step (Fire 0 None (Some 216)) ?w)) =
     [(7, \<lparr>ev_id = JNum 5, ev_error = Some 216, ev_value = None,
           ev_state = Some Canceling, ev_finished = Some True\<rparr>)]"
    by code_simp
  show ?thesis
    using url_cancellation_is_terminal [OF h m c, of None "Some 216"
        "[Fire 0 (Some final_result) None, StartRecognition url_args env_ok,
          Fire 0 (Some final_result) None]"]
      h m c e
    by blast
qed

subsection \<open>One task at a time\<close>

lemma filter_none:
  "(\<forall>i<length xs. \<not> P (xs ! i)) \<Longrightarrow> filter P xs = []"
  by (auto simp: filter_empty_conv in_set_conv_nth)

lemma filter_at_most_one:
  "(\<forall>i<length xs. \<forall>j<length xs. P (xs ! i) \<longrightarrow> P (xs ! j) \<longrightarrow> i = j) \<Longrightarrow>
   length (filter P xs) \<le> 1"
proof (induction xs)
  case Nil
  show ?case by simp
next
  case (Cons x xs)
  note distinct = Cons.prems [rule_format]
  have tl: "\<forall>i<length xs. \<forall>j<length xs. P (xs ! i) \<longrightarrow> P (xs ! j) \<longrightarrow> i = j"
  proof (intro allI impI)
    fix i j assume "i < length xs" "j < length xs" "P (xs ! i)" "P (xs ! j)"
    with distinct [of "Suc i" "Suc j"] show "i = j" by simp
  qed
  show ?case
  proof (cases "P x")
    case True
    have "\<forall>i<length xs. \<not> P (xs ! i)"
    proof (intro allI impI notI)
      fix i assume "i < length xs" "P (xs ! i)"
      with True distinct [of "Suc i" 0] show False by simp
    qed
    then have "filter P xs = []" by (rule filter_none)
    with True show ?thesis by simp
  next
    case False
    with Cons.IH [OF tl] show ?thesis by simp
  qed
qed

lemma lone_active:
  "lone w \<Longrightarrow> i < length (tasks w) \<Longrightarrow> active (tasks w ! i) \<Longrightarrow> recognitionTask w = Some i"
  unfolding lone_def by blast

lemma lone_tracked:
  "lone w \<Longrightarrow> recognitionTask w = Some t \<Longrightarrow> t < length (tasks w)"
  unfolding lone_def by blast

lemma lone_count:
  assumes "lone w"
  shows "length (filter active (tasks w)) \<le> 1"
proof (rule filter_at_most_one, intro allI impI)
  fix i j
  assume i: "i < length (tasks w)" "active (tasks w ! i)"
    and j: "j < length (tasks w)" "active (tasks w ! j)"
  have "recognitionTask w = Some i"
    using assms i by (rule lone_active)
  moreover have "recognitionTask w = Some j"
    using assms j by (rule lone_active)
  ultimately show "i = j" by simp
qed

lemma teardown_inactive:
  assumes "lone w" and "i < length (tasks w)"
  shows "\<not> active (tasks (teardown w) ! i)"
proof (cases "recognitionTask w")
  case None
  have "\<not> active (tasks w ! i)"
  proof
    assume "active (tasks w ! i)"
    with assms have "recognitionTask w = Some i" by (rule lone_active)
    with None show False by simp
  qed
  with None show ?thesis
    by (simp add: teardown_tasks del: active.simps)
next
  case (Some t)
  show ?thesis
  proof (cases "i = t")
    case True
    with Some assms(2) show ?thesis
      by (simp add: teardown_tasks del: active.simps)
  next
    case False
    have "\<not> active (tasks w ! i)"
    proof
      assume "active (tasks w ! i)"
      with assms have "recognitionTask w = Some i" by (rule lone_active)
      with Some False show False by simp
    qed
    with Some False show ?thesis
      by (simp add: teardown_tasks del: active.simps)
  qed
qed

lemma startRecognition_cases:
  obtains (unchanged)
      "tasks (snd (startRecognition a env w)) = tasks (teardown w)"
      "recognitionTask (snd (startRecognition a env w)) = None"
      "fst (startRecognition a env w) \<noteq> Returned True"
    | (created) x where
      "tasks (snd (startRecognition a env w)) = tasks (teardown w) @ [x]"
      "active x"
      "recognitionTask (snd (startRecognition a env w)) = Some (length (tasks w))"
  using startRecognition_tasks [of a env w] by (elim disjE conjE exE) simp_all

lemma startRecognition_lone:
  assumes "lone w"
  shows "lone (snd (startRecognition a env w))"
proof -
  let ?w = "snd (startRecognition a env w)"
  note quiet = teardown_inactive [OF assms]
  show ?thesis
  proof (cases a env w rule: startRecognition_cases)
    case unchanged
    have "\<not> active (tasks ?w ! i)" if "i < length (tasks ?w)" for i
      using that quiet [of i] unchanged(1) by (simp del: active.simps)
    with unchanged(2) show ?thesis
      unfolding lone_def by (simp del: active.simps)
  next
    case (created x)
    have "recognitionTask ?w = Some i" if "i < length (tasks ?w)" "active (tasks ?w ! i)" for i
    proof (cases "i < length (tasks w)")
      case True
      then have "tasks ?w ! i = tasks (teardown w) ! i"
        using created(1) by (simp add: nth_append)
      with that(2) quiet [OF True] show ?thesis by (simp del: active.simps)
    next
      case False
      with that(1) created(1) have "i = length (tasks w)" by simp
      with created(3) show ?thesis by simp
    qed
    moreover have "length (tasks w) < length (tasks ?w)"
      using created(1) by simp
    ultimately show ?thesis
      unfolding lone_def using created(3) by (simp del: active.simps)
  qed
qed

lemma startRecognition_count:
  assumes "lone w" and "fst (startRecognition a env w) = Returned True"
  shows "length (filter active (tasks (snd (startRecognition a env w)))) = 1 \<and>
    recognitionTask (snd (startRecognition a env w)) = Some (length (tasks w))"
proof -
  have none: "filter active (tasks (teardown w)) = []"
    using teardown_inactive [OF assms(1)] by (intro filter_none) (simp del: active.simps)
  show ?thesis
  proof (cases a env w rule: startRecognition_cases)
    case unchanged
    with assms(2) show ?thesis by simp
  next
    case (created x)
    with none show ?thesis by (simp del: active.simps)
  qed
qed

lemma startRecognition_previous:
  assumes "lone w" and "recognitionTask w = Some t"
  shows "\<not> active (tasks (snd (startRecognition a env w)) ! t) \<and>
    recognitionTask (snd (startRecognition a env w)) \<noteq> Some t"
proof -
  from assms have t: "t < length (tasks w)"
    by (rule lone_tracked)
  note quiet = teardown_inactive [OF assms(1) t]
  show ?thesis
  proof (cases a env w rule: startRecognition_cases)
    case unchanged
    with quiet show ?thesis by (simp del: active.simps)
  next
    case (created x)
    with quiet t show ?thesis by (simp add: nth_append del: active.simps)
  qed
qed

lemma run_starts_lone:
  "lone w \<Longrightarrow> lone (run (map (\<lambda>(a, env). StartRecognition a env) calls) w)"
proof (induction calls arbitrary: w)
  case Nil
  then show ?case by simp
next
  case (Cons c calls)
  obtain a env where c: "c = (a, env)" by (cases c)
  from Cons.prems have "lone (snd (startRecognition a env w))"
    by (rule startRecognition_lone)
  from Cons.IH [OF this] c show ?case by simp
qed

lemma start_url_trace_mono:
  "x \<in> set (trace w) \<Longrightarrow> x \<in> set (trace (snd (start_url a env c w)))"
proof (cases "\<exists>s. arg_url a = JStr s")
  case False
  assume "x \<in> set (trace w)"
  with False show ?thesis by (simp add: start_url_not_string)
next
  case True
  assume x: "x \<in> set (trace w)"
  from True obtain s where s: "arg_url a = JStr s" ..
  from x s show ?thesis
    by (cases "request_created env") (simp_all add: start_url_no_request start_url_request Let_def)
qed

lemma start_microphone_trace_mono:
  "x \<in> set (trace w) \<Longrightarrow> x \<in> set (trace (snd (start_microphone env c w)))"
proof (cases "input_node_available env w")
  case False
  assume "x \<in> set (trace w)"
  with False show ?thesis by (simp add: start_microphone_no_node)
next
  case True
  assume "x \<in> set (trace w)"
  then show ?thesis
    using start_microphone_no_recognizer [OF True, of c]
    by (cases "is_obj (speechRecognizer w)") (simp_all add: start_microphone_started [OF True])
qed

lemma startRecognition_cancels:
  "recognitionTask w = Some t \<Longrightarrow> TaskCancel t \<in> set (trace (snd (startRecognition a env w)))"
proof -
  assume t: "recognitionTask w = Some t"
  let ?w = "teardown (warn_no_progress a w)"
  have c: "TaskCancel t \<in> set (trace ?w)"
    using t by (simp add: teardown_trace)
  consider (url) "loose_eq_const (infer_type a) SOURCE_TYPE_URL"
    | (mic) "loose_eq_const (infer_type a) SOURCE_TYPE_MICROPHONE"
    | (unknown) "\<not> loose_eq_const (infer_type a) SOURCE_TYPE_URL"
        "\<not> loose_eq_const (infer_type a) SOURCE_TYPE_MICROPHONE"
    by blast
  then show ?thesis
  proof cases
    case url
    with c show ?thesis by (simp add: startRecognition_url start_url_trace_mono)
  next
    case mic
    with c show ?thesis by (simp add: startRecognition_microphone start_microphone_trace_mono)
  next
    case unknown
    with c show ?thesis by (simp add: startRecognition_unknown)
  qed
qed

lemma start_url_request_fresh:
  "request w = None \<Longrightarrow>
   request (snd (start_url a env c w)) = None \<or>
   request (snd (start_url a env c w)) = Some (length (requests w))"
proof (cases "\<exists>s. arg_url a = JStr s")
  case False
  assume "request w = None"
  with False show ?thesis by (simp add: start_url_not_string)
next
  case True
  then obtain s where s: "arg_url a = JStr s" ..
  then show ?thesis
    by (cases "request_created env") (simp_all add: start_url_no_request start_url_request Let_def)
qed

lemma start_microphone_request_fresh:
  "request w = None \<Longrightarrow>
   request (snd (start_microphone env c w)) = None \<or>
   request (snd (start_microphone env c w)) = Some (length (requests w))"
proof (cases "input_node_available env w")
  case False
  assume "request w = None"
  with False show ?thesis by (simp add: start_microphone_no_node)
next
  case True
  then show ?thesis
    using start_microphone_no_recognizer [OF True, of c]
    by (cases "is_obj (speechRecognizer w)") (simp_all add: start_microphone_started [OF True])
qed

lemma startRecognition_request_fresh:
  "request (snd (startRecognition a env w)) = None \<or>
   request (snd (startRecognition a env w)) = Some (length (requests w))"
proof -
  let ?w = "teardown (warn_no_progress a w)"
  have n: "request ?w = None" "requests ?w = requests w"
    by simp_all
  consider (url) "loose_eq_const (infer_type a) SOURCE_TYPE_URL"
    | (mic) "loose_eq_const (infer_type a) SOURCE_TYPE_MICROPHONE"
    | (unknown) "\<not> loose_eq_const (infer_type a) SOURCE_TYPE_URL"
        "\<not> loose_eq_const (infer_type a) SOURCE_TYPE_MICROPHONE"
    by blast
  then show ?thesis
  proof cases
    case url
    then show ?thesis
      using start_url_request_fresh [OF n(1)] n(2) by (simp add: startRecognition_url)
  next
    case mic
    then show ?thesis
      using start_microphone_request_fresh [OF n(1)] n(2)
      by (simp add: startRecognition_microphone)
  next
    case unknown
    then show ?thesis by (simp add: startRecognition_unknown)
  qed
qed

text \<open>
  C1, amended.  Start from any state in which only the tracked task may be active (the
  loaded module is one) and make any sequence of startRecognition calls.  Afterwards at
  most one task is active, and an active task is the tracked one.  One more call cancels
  the task tracked so far, which is then neither active nor tracked, and the request it
  tracks afterwards is none or a new one; if that call returns true, exactly one task is
  active, the one it created.
\<close>

theorem one_task_after_starts:
  "lone w \<Longrightarrow>
   (let w1 = run (map (\<lambda>(a, env). StartRecognition a env) calls) w;
        w2 = snd (startRecognition a env w1)
    in length (filter active (tasks w1)) \<le> 1 \<and>
       (\<forall>i<length (tasks w1). active (tasks w1 ! i) \<longrightarrow> recognitionTask w1 = Some i) \<and>
       (\<forall>t. recognitionTask w1 = Some t \<longrightarrow>
          TaskCancel t \<in> set (trace w2) \<and> \<not> active (tasks w2 ! t) \<and> recognitionTask w2 \<noteq> Some t) \<and>
       (request w2 = None \<or> request w2 = Some (length (requests w1))) \<and>
       (fst (startRecognition a env w1) = Returned True \<longrightarrow>
          length (filter active (tasks w2)) = 1 \<and> recognitionTask w2 = Some (length (tasks w1))))"
proof -
  assume "lone w"
  let ?w1 = "run (map (\<lambda>(a, env). StartRecognition a env) calls) w"
  let ?w2 = "snd (startRecognition a env ?w1)"
  have l: "lone ?w1"
    using \<open>lone w\<close> by (rule run_starts_lone)
  have one: "length (filter active (tasks ?w1)) \<le> 1"
    using l by (rule lone_count)
  have tracked: "\<forall>i<length (tasks ?w1). active (tasks ?w1 ! i) \<longrightarrow> recognitionTask ?w1 = Some i"
    using lone_active [OF l] by blast
  have prev: "\<forall>t. recognitionTask ?w1 = Some t \<longrightarrow>
      TaskCancel t \<in> set (trace ?w2) \<and> \<not> active (tasks ?w2 ! t) \<and> recognitionTask ?w2 \<noteq> Some t"
    using startRecognition_cancels [of ?w1 _ a env] startRecognition_previous [OF l, of _ a env]
    by blast
  have req: "request ?w2 = None \<or> request ?w2 = Some (length (requests ?w1))"
    by (rule startRecognition_request_fresh)
  have started: "fst (startRecognition a env ?w1) = Returned True \<longrightarrow>
      length (filter active (tasks ?w2)) = 1 \<and> recognitionTask ?w2 = Some (length (tasks ?w1))"
    using startRecognition_count [OF l] by blast
  from one tracked prev req started show ?thesis
    unfolding Let_def by (intro conjI)
qed

text \<open>
  C1 as stated (after any sequence of startRecognition calls exactly one task is active)
  fails when the last call fails: after a url session is started, a call with an unknown
  type, or one whose request cannot be constructed, cancels the running task and creates
  none, so no task is active.
\<close>

theorem failed_start_leaves_no_task:
  "length (filter active (tasks (run (map (\<lambda>(a, env). StartRecognition a env)
      [(url_args, env_ok), (unknown_args, env_ok)]) initial))) = 0 \<and>
   length (filter active (tasks (run (map (\<lambda>(a, env). StartRecognition a env)
      [(url_args, env_ok), (url_args, env_ok\<lparr>request_created := False\<rparr>)]) initial))) = 0"
  by code_simp

theorem one_task_after_starts_witness:
  "lone initial \<and>
   length (filter active (tasks (run (map (\<lambda>(a, env). StartRecognition a env)
      [(url_args, env_ok), (mic_args, env_ok)]) initial))) \<le> 1 \<and>
   recognitionTask (run (map (\<lambda>(a, env). StartRecognition a env)
      [(url_args, env_ok), (mic_args, env_ok)]) initial) = Some 1 \<and>
   TaskCancel 1 \<in> set (trace (snd (startRecognition url_args env_ok
      (run (map (\<lambda>(a, env). StartRecognition a env)
        [(url_args, env_ok), (mic_args, env_ok)]) initial)))) \<and>
   \<not> active (tasks (snd (startRecognition url_args env_ok
      (run (map (\<lambda>(a, env). StartRecognition a env)
        [(url_args, env_ok), (mic_args, env_ok)]) initial))) ! 1) \<and>
   fst (startRecognition url_args env_ok
      (run (map (\<lambda>(a, env). StartRecognition a env)
        [(url_args, env_ok), (mic_args, env_ok)]) initial)) = Returned True \<and>
   length (filter active (tasks (snd (startRecognition url_args env_ok
      (run (map (\<lambda>(a, env). StartRecognition a env)
        [(url_args, env_ok), (mic_args, env_ok)]) initial))))) = 1"
proof -
  let ?w1 = "run (map (\<lambda>(a, env). StartRecognition a env)
        [(url_args, env_ok), (mic_args, env_ok)]) initial"
  have l: "lone initial"
    by (simp add: lone_def initial_def)
  have t: "recognitionTask ?w1 = Some 1"
    by code_simp
  have r: "fst (startRecognition url_args env_ok ?w1) = Returned True"
    by code_simp
  show ?thesis
    using one_task_after_starts [OF l, of "[(url_args, env_ok), (mic_args, env_ok)]" url_args env_ok] l t r
    unfolding Let_def by blast
qed

subsection \<open>A handler that outlives its session\<close>

text \<open>
  The bound on active tasks above is one on sequences of calls.  A result handler reads the
  module's \<open>recognitionTask\<close>, not the task it was built for: when the handler of a
  cancelled url task is called with the cancellation error after the next session has
  started, it forgets the task of that next session (line 239), which is then never
  cancelled, and a third call leaves two tasks active.
\<close>

lemma stale_url_handler_forgets_next_task:
  "recognitionTask (run [StartRecognition url_args env_ok, StartRecognition url_args env_ok,
      Fire 0 None (Some 216)] initial) = None \<and>
   map active (tasks (run [StartRecognition url_args env_ok, StartRecognition url_args env_ok,
      Fire 0 None (Some 216), StartRecognition url_args env_ok] initial)) = [False, True, True]"
  by code_simp

text \<open>
  The handler built in microphone mode reads the module's \<open>request\<close> in the same way:
  called with the cancellation error after a url session has started, it removes the tap,
  stops the engine, and then throws at \<open>request.endAudio()\<close> (line 281) on the url
  request, before line 282; the task of the url session stays tracked.
\<close>

lemma stale_microphone_handler_throws:
  "fst (microphone_handler 0 None (Some 216) (run [Initialize None env_ok,
      StartRecognition mic_args env_ok, StartRecognition url_args env_ok] initial)) =
     Threw TypeError \<and>
   recognitionTask (run [Initialize None env_ok, StartRecognition mic_args env_ok,
      StartRecognition url_args env_ok, Fire 0 None (Some 216)] initial) = Some 1 \<and>
   native_calls (trace (run [Initialize None env_ok, StartRecognition mic_args env_ok,
      StartRecognition url_args env_ok, Fire 0 None (Some 216)] initial)) =
     [RemoveTapOnBus 0, InstallTapOnBus 0, EnginePrepare, EngineStart True, TaskCancel 0,
      PathForResource ''hello'' ''wav'', RemoveTapOnBus 0, EngineStop]"
  by code_simp

end
